theory Spec2Isabelle
  imports Main
begin

section \<open>Python strings and \<open>os.path\<close> on POSIX\<close>

text \<open>
  Python strings are modelled as \<^typ>\<open>string\<close>.  The functions of this section are the
  library functions that \<open>notiontree/hierarchy.py\<close> calls: \<open>str.startswith\<close>,
  \<open>str.endswith\<close>, \<open>str.replace\<close>, and \<open>join\<close>, \<open>dirname\<close>, \<open>basename\<close>,
  \<open>normpath\<close> of \<open>posixpath\<close>.
\<close>

definition startswith :: "string \<Rightarrow> string \<Rightarrow> bool" where
  "startswith s p = (take (length p) s = p)"

definition endswith :: "string \<Rightarrow> string \<Rightarrow> bool" where
  "endswith s p = (length p \<le> length s \<and> drop (length s - length p) s = p)"

definition is_sep :: "char \<Rightarrow> bool" where
  "is_sep c = (c = CHR ''/'')"

definition not_sep :: "char \<Rightarrow> bool" where
  "not_sep c = (c \<noteq> CHR ''/'')"

text \<open>\<open>s.rstrip('/')\<close>\<close>

definition rstrip_sep :: "string \<Rightarrow> string" where
  "rstrip_sep s = rev (dropWhile is_sep (rev s))"

text \<open>\<open>posixpath.join(a, b)\<close> with two arguments.\<close>

definition path_join :: "string \<Rightarrow> string \<Rightarrow> string" where
  "path_join a b =
     (if startswith b ''/'' then b
      else if a = [] \<or> endswith a ''/'' then a @ b
      else a @ ''/'' @ b)"

text \<open>
  \<open>posixpath.dirname(p)\<close>: \<open>head = p[:p.rfind('/') + 1]\<close>, stripped of its trailing
  slashes unless it consists of slashes only.
\<close>

definition path_head :: "string \<Rightarrow> string" where
  "path_head p = rev (dropWhile not_sep (rev p))"

definition dirname :: "string \<Rightarrow> string" where
  "dirname p =
     (let head = path_head p in
      if head \<noteq> [] \<and> filter not_sep head \<noteq> [] then rstrip_sep head else head)"

text \<open>\<open>posixpath.basename(p)\<close>: \<open>p[p.rfind('/') + 1:]\<close>.\<close>

definition basename :: "string \<Rightarrow> string" where
  "basename p = rev (takeWhile not_sep (rev p))"

section \<open>Pages\<close>

datatype PageType = ROOT | NODE | LEAVE

text \<open>A remote page (\<open>PageBlock\<close>) is identified by its handle.\<close>

type_synonym handle = nat

record Page =
  type :: PageType
  parent_filename :: string
  filename :: string
  notion_url :: "string option"
  notion_page :: "handle option"

text \<open>The constructor call \<open>Page(type, parent_filename, filename)\<close>.\<close>

definition mk_Page :: "PageType \<Rightarrow> string \<Rightarrow> string \<Rightarrow> Page" where
  "mk_Page t pf f =
     \<lparr>type = t, parent_filename = pf, filename = f, notion_url = None, notion_page = None\<rparr>"

definition is_index :: "Page \<Rightarrow> bool" where
  "is_index p = (filename p = ''index.md'' \<or> endswith (filename p) ''/index.md'')"

definition title :: "Page \<Rightarrow> string" where
  "title p = (if is_index p then basename (dirname (filename p)) else basename (filename p))"

section \<open>The directory walk and \<open>build_local_hierarchy\<close>\<close>

text \<open>
  The file system under the walked path: a directory lists its sub-directories (name and
  content) and the names of its files, in the order of the directory listing.  The
  sub-directories are those that \<open>os.walk\<close> enters when their name is left in
  \<open>dirnames\<close>: it does not follow a symbolic link, and it passes over a directory that it
  cannot list.
\<close>

datatype dirtree = Dir (subdirs: "(string \<times> dirtree) list") (files: "string list")

text \<open>
  The loop body's \<open>if ".git" in dirnames: dirnames.remove(".git")\<close>: the first entry
  named \<open>.git\<close> leaves the list that \<open>os.walk\<close> descends into.
\<close>

fun remove_git :: "(string \<times> 'a) list \<Rightarrow> (string \<times> 'a) list" where
  "remove_git [] = []"
| "remove_git ((n, t) # es) = (if n = ''.git'' then es else (n, t) # remove_git es)"

lemma remove_git_subset: "set (remove_git es) \<subseteq> set es"
  by (induction es rule: remove_git.induct) auto

lemma size_subdir: "(n, t) \<in> set es \<Longrightarrow> size t < Suc (size_list (size_prod (\<lambda>_. 0) size) es)"
  by (induction es) auto

text \<open>
  \<open>os.walk(top)\<close>, top-down, as the loop of \<open>build_local_hierarchy\<close> drives it: each
  visited directory yields \<open>(dirpath, dirnames, filenames)\<close>, then the walk descends into
  \<open>join(dirpath, name)\<close> for every name left in \<open>dirnames\<close> by the loop body.  The
  second component is \<open>dirnames\<close> as the loop body leaves it; the code reads it nowhere
  else.
\<close>

function os_walk :: "string \<Rightarrow> dirtree \<Rightarrow> (string \<times> string list \<times> string list) list" where
  "os_walk d (Dir subs fs) =
     (d, map fst (remove_git subs), fs) #
     concat (map (\<lambda>(name, t). os_walk (path_join d name) t) (remove_git subs))"
  by pat_completeness auto
termination
proof (relation "measure (\<lambda>(d, t). size t)")
  show "wf (measure (\<lambda>(d, t). size t))" by simp
next
  fix d subs fs and x :: "string \<times> dirtree" and name t
  assume "x \<in> set (remove_git subs)" and "(name, t) = x"
  then have "(name, t) \<in> set subs" using remove_git_subset by fastforce
  then show "((path_join d name, t), (d, Dir subs fs)) \<in> measure (\<lambda>(d, t). size t)"
    using size_subdir by fastforce
qed

definition is_leave_name :: "string \<Rightarrow> bool" where
  "is_leave_name f = (f \<noteq> ''index.md'' \<and> endswith f ''.md'')"

text \<open>One iteration of the loop of \<open>build_local_hierarchy\<close>: the pages it appends.\<close>

definition hierarchy_step :: "nat \<times> string \<times> string list \<times> string list \<Rightarrow> Page list" where
  "hierarchy_step = (\<lambda>(walk_index, dirpath, dirnames, filenames).
     (let node = path_join dirpath ''index.md'' in
      (if walk_index = 0 then mk_Page ROOT [] node
       else mk_Page NODE (path_join (dirname dirpath) ''index.md'') node) #
      map (\<lambda>f. mk_Page LEAVE node (path_join dirpath f)) (filter is_leave_name filenames)))"

definition build_local_hierarchy :: "string \<Rightarrow> dirtree \<Rightarrow> Page list" where
  "build_local_hierarchy path t = concat (map hierarchy_step (enumerate 0 (os_walk path t)))"

section \<open>The remote workspace\<close>

text \<open>
  Exceptions are values.  \<open>IOError\<close> stands for every exception that Python's
  \<open>except IOError\<close> catches, \<open>OtherError\<close> for every exception it does not catch and
  neither the code nor \<open>urlparse\<close> raises.
\<close>

datatype py_error = KeyError | AttributeError | IOError | ValueError | OtherError

text \<open>
  The remote service is seen through the calls the code issues, in call order:
  \<open>parent.children.add_new(PageBlock, title=...)\<close> with the handle it returned,
  \<open>client.import_file\<close> with the content of the file it was given, the assignment
  \<open>notion_page.title = ...\<close>, and \<open>notion_page.move_to(parent, position)\<close>.
\<close>

datatype call =
    Create handle string handle
  | Import string handle
  | SetTitle handle string
  | Move handle handle string

text \<open>
  The state of the remote side: the handle the next created page receives, the calls
  issued so far, the blocks \<open>get_block\<close> resolves by URL, and what the coming
  \<open>import_file\<close> calls will do (\<open>None\<close>: succeed, \<open>Some e\<close>: raise \<open>e\<close>; every call after
  the listed ones succeeds).
\<close>

record remote =
  next_handle :: handle
  calls :: "call list"
  blocks :: "(string \<times> handle) list"
  import_script :: "py_error option list"

definition get_notion_page :: "remote \<Rightarrow> string \<Rightarrow> handle option" where
  "get_notion_page r url = map_of (blocks r) url"

text \<open>
  \<open>create_notion_page(page, parent)\<close>: \<open>parent.children\<close> raises \<open>AttributeError\<close> when
  \<open>parent\<close> is \<open>None\<close>.
\<close>

definition create_notion_page ::
  "Page \<Rightarrow> handle option \<Rightarrow> remote \<Rightarrow> (py_error + handle) \<times> remote" where
  "create_notion_page page parent r =
     (case parent of
        None \<Rightarrow> (Inl AttributeError, r)
      | Some ph \<Rightarrow>
          (Inr (next_handle r),
           r\<lparr>next_handle := Suc (next_handle r),
             calls := calls r @ [Create ph (title page) (next_handle r)]\<rparr>))"

definition import_file :: "string \<Rightarrow> handle \<Rightarrow> remote \<Rightarrow> (py_error + unit) \<times> remote" where
  "import_file content h r =
     (let r' = r\<lparr>calls := calls r @ [Import content h]\<rparr> in
      case import_script r of
        [] \<Rightarrow> (Inr (), r')
      | None # script \<Rightarrow> (Inr (), r'\<lparr>import_script := script\<rparr>)
      | Some e # script \<Rightarrow> (Inl e, r'\<lparr>import_script := script\<rparr>))"

definition set_title :: "handle \<Rightarrow> string \<Rightarrow> remote \<Rightarrow> remote" where
  "set_title h t r = r\<lparr>calls := calls r @ [SetTitle h t]\<rparr>"

definition move_to :: "handle \<Rightarrow> handle \<Rightarrow> string \<Rightarrow> remote \<Rightarrow> remote" where
  "move_to h parent position r = r\<lparr>calls := calls r @ [Move h parent position]\<rparr>"

section \<open>\<open>create_notion_hierarchy\<close>\<close>

text \<open>
  One iteration of the loop of \<open>create_notion_hierarchy\<close>, with the local variables
  \<open>filename_to_notion\<close> and \<open>root_notion_page\<close> and the remote state: the parent is chosen,
  the page is created under it, and the two variables are updated.
\<close>

definition create_step ::
  "string \<Rightarrow> bool \<Rightarrow> Page \<Rightarrow> (string \<rightharpoonup> handle) \<Rightarrow> handle option \<Rightarrow> remote \<Rightarrow>
   (py_error + (string \<rightharpoonup> handle) \<times> handle option) \<times> remote" where
  "create_step root_parent_url flat page filename_to_notion root_notion_page r =
     (case (if type page = ROOT then Inr (get_notion_page r root_parent_url)
            else if flat then Inr root_notion_page
            else (case filename_to_notion (parent_filename page) of
                    None \<Rightarrow> Inl KeyError
                  | Some h \<Rightarrow> Inr (Some h))) of
        Inl e \<Rightarrow> (Inl e, r)
      | Inr parent \<Rightarrow>
          (case create_notion_page page parent r of
             (Inl e, r') \<Rightarrow> (Inl e, r')
           | (Inr created, r') \<Rightarrow>
               (Inr (filename_to_notion(filename page \<mapsto> created),
                     if type page = ROOT then Some created else root_notion_page),
                r')))"

fun create_loop ::
  "string \<Rightarrow> bool \<Rightarrow> Page list \<Rightarrow> (string \<rightharpoonup> handle) \<Rightarrow> handle option \<Rightarrow> remote \<Rightarrow>
   (py_error + (string \<rightharpoonup> handle) \<times> handle option) \<times> remote" where
  "create_loop root_parent_url flat [] filename_to_notion root_notion_page r =
     (Inr (filename_to_notion, root_notion_page), r)"
| "create_loop root_parent_url flat (page # hierarchy) filename_to_notion root_notion_page r =
     (case create_step root_parent_url flat page filename_to_notion root_notion_page r of
        (Inl e, r') \<Rightarrow> (Inl e, r')
      | (Inr (filename_to_notion', root_notion_page'), r') \<Rightarrow>
          create_loop root_parent_url flat hierarchy filename_to_notion' root_notion_page' r')"

definition create_notion_hierarchy ::
  "string \<Rightarrow> Page list \<Rightarrow> bool \<Rightarrow> remote \<Rightarrow> (py_error + (string \<rightharpoonup> handle)) \<times> remote" where
  "create_notion_hierarchy root_parent_url hierarchy flat r =
     (case create_loop root_parent_url flat hierarchy Map.empty None r of
        (Inl e, r') \<Rightarrow> (Inl e, r')
      | (Inr (filename_to_notion, root_notion_page), r') \<Rightarrow> (Inr filename_to_notion, r'))"

section \<open>\<open>move_pages_notion_hierarchy\<close>\<close>

definition move_step ::
  "(string \<rightharpoonup> handle) \<Rightarrow> Page \<Rightarrow> remote \<Rightarrow> (py_error + unit) \<times> remote" where
  "move_step filename_to_notion page r =
     (if type page = ROOT then (Inr (), r)
      else case filename_to_notion (parent_filename page) of
        None \<Rightarrow> (Inl KeyError, r)
      | Some parent_notion_page \<Rightarrow>
          (case filename_to_notion (filename page) of
             None \<Rightarrow> (Inl KeyError, r)
           | Some moved \<Rightarrow>
               (Inr (), move_to moved parent_notion_page ''first-child'' r)))"

fun move_loop ::
  "(string \<rightharpoonup> handle) \<Rightarrow> Page list \<Rightarrow> remote \<Rightarrow> (py_error + unit) \<times> remote" where
  "move_loop filename_to_notion [] r = (Inr (), r)"
| "move_loop filename_to_notion (page # pages) r =
     (case move_step filename_to_notion page r of
        (Inl e, r') \<Rightarrow> (Inl e, r')
      | (Inr u, r') \<Rightarrow> move_loop filename_to_notion pages r')"

definition move_pages_notion_hierarchy ::
  "Page list \<Rightarrow> (string \<rightharpoonup> handle) \<Rightarrow> remote \<Rightarrow> (py_error + unit) \<times> remote" where
  "move_pages_notion_hierarchy hierarchy filename_to_notion r =
     move_loop filename_to_notion (rev hierarchy) r"

section \<open>Library functions of the link resolver\<close>

text \<open>\<open>s.split('/')\<close>\<close>

fun split_sep :: "string \<Rightarrow> string list" where
  "split_sep [] = [[]]"
| "split_sep (c # cs) =
     (if c = CHR ''/'' then [] # split_sep cs
      else (case split_sep cs of [] \<Rightarrow> [[c]] | x # xs \<Rightarrow> (c # x) # xs))"

text \<open>\<open>'/'.join(comps)\<close>\<close>

fun join_sep :: "string list \<Rightarrow> string" where
  "join_sep [] = []"
| "join_sep [x] = x"
| "join_sep (x # y # ys) = x @ ''/'' @ join_sep (y # ys)"

text \<open>
  \<open>posixpath.normpath\<close>.  One step of its loop over the components, \<open>new_comps\<close> being
  the components kept so far and \<open>initial_slashes\<close> the number of leading slashes kept
  (0, 1 or 2).
\<close>

definition normpath_step :: "nat \<Rightarrow> string list \<Rightarrow> string \<Rightarrow> string list" where
  "normpath_step initial_slashes new_comps part =
     (if part = [] \<or> part = ''.'' then new_comps
      else if part \<noteq> ''..'' \<or> (initial_slashes = 0 \<and> new_comps = [])
              \<or> (new_comps \<noteq> [] \<and> last new_comps = ''..'')
        then new_comps @ [part]
      else if new_comps \<noteq> [] then butlast new_comps
      else new_comps)"

definition normpath :: "string \<Rightarrow> string" where
  "normpath path =
     (if path = [] then ''.''
      else
        let initial_slashes =
              (if startswith path ''/''
               then (if startswith path ''//'' \<and> \<not> startswith path ''///'' then 2 else 1)
               else (0::nat));
            comps = foldl (normpath_step initial_slashes) [] (split_sep path);
            path' = replicate initial_slashes CHR ''/'' @ join_sep comps
        in if path' = [] then ''.'' else path')"

text \<open>
  \<open>s.replace(old, new)\<close>: the occurrences of \<open>old\<close> are replaced from left to right,
  without overlap; an empty \<open>old\<close> matches before every character and at the end.
\<close>

function str_replace :: "string \<Rightarrow> string \<Rightarrow> string \<Rightarrow> string" where
  "str_replace [] old new = (if old = [] then new else [])"
| "str_replace (c # cs) old new =
     (if old = [] then new @ c # str_replace cs old new
      else if startswith (c # cs) old
        then new @ str_replace (drop (length old) (c # cs)) old new
      else c # str_replace cs old new)"
  by pat_completeness auto
termination
  by (relation "measure (\<lambda>(s, old, new). length s)") auto

text \<open>
  \<open>bytes.decode('utf-8', 'replace')\<close>, on strings as sequences of bytes: a well-formed
  UTF-8 sequence is kept, and every maximal ill-formed part (a byte that cannot start a
  sequence, or the start of a sequence up to the byte that cannot continue it, or a
  sequence cut off by the end of the input) becomes U+FFFD, that is, the bytes
  \<open>EF BF BD\<close>.
\<close>

definition utf8_len :: "char \<Rightarrow> nat" where
  "utf8_len b =
     (let n = of_char b :: nat in
      if n < 0x80 then 1
      else if 0xC2 \<le> n \<and> n \<le> 0xDF then 2
      else if 0xE0 \<le> n \<and> n \<le> 0xEF then 3
      else if 0xF0 \<le> n \<and> n \<le> 0xF4 then 4
      else 0)"

definition is_cont :: "char \<Rightarrow> bool" where
  "is_cont b = (0x80 \<le> (of_char b :: nat) \<and> (of_char b :: nat) \<le> 0xBF)"

definition second_ok :: "char \<Rightarrow> char \<Rightarrow> bool" where
  "second_ok b1 b2 =
     (let n1 = of_char b1 :: nat; n2 = of_char b2 :: nat in
      is_cont b2 \<and>
      (if n1 = 0xE0 then 0xA0 \<le> n2
       else if n1 = 0xED then n2 < 0xA0
       else if n1 = 0xF0 then 0x90 \<le> n2
       else if n1 = 0xF4 then n2 < 0x90
       else True))"

definition replacement :: string where
  "replacement = [CHR 0xEF, CHR 0xBF, CHR 0xBD]"

function utf8_replace :: "string \<Rightarrow> string" where
  "utf8_replace [] = []"
| "utf8_replace (b1 # bs) =
     (if utf8_len b1 = 1 then b1 # utf8_replace bs
      else if utf8_len b1 = 0 then replacement @ utf8_replace bs
      else
        (case bs of
           [] \<Rightarrow> replacement
         | b2 # bs2 \<Rightarrow>
             if \<not> second_ok b1 b2 then replacement @ utf8_replace bs
             else if utf8_len b1 = 2 then b1 # b2 # utf8_replace bs2
             else
               (case bs2 of
                  [] \<Rightarrow> replacement
                | b3 # bs3 \<Rightarrow>
                    if \<not> is_cont b3 then replacement @ utf8_replace bs2
                    else if utf8_len b1 = 3 then b1 # b2 # b3 # utf8_replace bs3
                    else
                      (case bs3 of
                         [] \<Rightarrow> replacement
                       | b4 # bs4 \<Rightarrow>
                           if \<not> is_cont b4 then replacement @ utf8_replace bs3
                           else b1 # b2 # b3 # b4 # utf8_replace bs4))))"
  by pat_completeness auto
termination
  by (relation "measure length") auto

text \<open>
  \<open>urllib.parse.unquote_to_bytes\<close> on a string of ASCII characters: every \<open>%\<close> followed by
  two hexadecimal digits becomes the byte they denote, and the decoded byte is not read
  again.
\<close>

definition is_hexdig :: "char \<Rightarrow> bool" where
  "is_hexdig c = (c \<in> set ''0123456789ABCDEFabcdef'')"

definition hexval :: "char \<Rightarrow> nat" where
  "hexval c =
     (let n = of_char c in
      if 48 \<le> n \<and> n \<le> 57 then n - 48
      else if 65 \<le> n \<and> n \<le> 70 then n - 55
      else n - 87)"

fun unquote_to_bytes :: "string \<Rightarrow> string" where
  "unquote_to_bytes (c # h1 # h2 # cs) =
     (if c = CHR ''%'' \<and> is_hexdig h1 \<and> is_hexdig h2
      then char_of (hexval h1 * 16 + hexval h2) # unquote_to_bytes cs
      else c # unquote_to_bytes (h1 # h2 # cs))"
| "unquote_to_bytes cs = cs"

text \<open>
  \<open>urllib.parse.unquote\<close>.  A string without \<open>%\<close> is returned as it is.  Otherwise the
  string is cut into its runs of ASCII characters and the characters between them; every
  ASCII run is unquoted to bytes and decoded as UTF-8 with replacement, on its own, and
  the characters that are not ASCII (bytes from \<open>80\<close> on, in the UTF-8 form of the string)
  are kept.
\<close>

definition is_ascii :: "char \<Rightarrow> bool" where
  "is_ascii c = ((of_char c :: nat) < 0x80)"

definition not_ascii :: "char \<Rightarrow> bool" where
  "not_ascii c = (\<not> is_ascii c)"

function unquote_runs :: "string \<Rightarrow> string" where
  "unquote_runs [] = []"
| "unquote_runs (c # cs) =
     (if is_ascii c
      then utf8_replace (unquote_to_bytes (takeWhile is_ascii (c # cs))) @
           unquote_runs (dropWhile is_ascii cs)
      else takeWhile not_ascii (c # cs) @ unquote_runs (dropWhile not_ascii cs))"
  by pat_completeness auto
termination
  by (relation "measure length") (auto simp: length_dropWhile_le less_Suc_eq_le)

definition unquote :: "string \<Rightarrow> string" where
  "unquote s = (if CHR ''%'' \<notin> set s then s else unquote_runs s)"

text \<open>
  \<open>urllib.parse.urlparse(url).path\<close> (CPython 3.11 and 3.12): leading control characters
  and spaces are stripped and tabs and line breaks removed, then the scheme, the network
  location, the fragment, the query and the parameters of the last path segment are split
  off.  \<open>urlparse\<close> raises \<open>ValueError\<close> for a network location with one of the brackets
  \<open>[\<close>, \<open>]\<close> and not the other.  For a network location with both brackets it
  validates the bracketed host (\<open>_check_bracketed_netloc\<close>, with the \<open>ipaddress\<close> module),
  and for one that is not ASCII it looks at its NFKC normal form (\<open>_checknetloc\<close>), raising
  \<open>ValueError\<close> when it does not accept it.  These two checks are the parameter
  \<open>netloc_ok\<close>, which is asked about no other network location.
\<close>

definition is_scheme_char :: "char \<Rightarrow> bool" where
  "is_scheme_char c =
     (c \<in> set ''abcdefghijklmnopqrstuvwxyzABCDEFGHIJKLMNOPQRSTUVWXYZ0123456789+-.'')"

definition is_ascii_alpha :: "char \<Rightarrow> bool" where
  "is_ascii_alpha c = (c \<in> set ''abcdefghijklmnopqrstuvwxyzABCDEFGHIJKLMNOPQRSTUVWXYZ'')"

definition ascii_lower :: "char \<Rightarrow> char" where
  "ascii_lower c =
     (let n = of_char c :: nat in if 65 \<le> n \<and> n \<le> 90 then char_of (n + 32) else c)"

definition uses_params :: "string list" where
  "uses_params =
     [[], ''ftp'', ''hdl'', ''prospero'', ''http'', ''imap'', ''https'', ''shttp'', ''rtsp'',
      ''rtsps'', ''rtspu'', ''sip'', ''sips'', ''mms'', ''sftp'', ''tel'']"

text \<open>The scheme (lower-cased, empty when there is none) and the rest of the URL.\<close>

definition split_scheme :: "string \<Rightarrow> string \<times> string" where
  "split_scheme url =
     (let pre = takeWhile (\<lambda>c. c \<noteq> CHR '':'') url in
      if length pre < length url \<and> pre \<noteq> [] \<and> is_ascii_alpha (hd url)
         \<and> filter (\<lambda>c. \<not> is_scheme_char c) pre = []
      then (map ascii_lower pre, drop (Suc (length pre)) url)
      else ([], url))"

text \<open>
  \<open>_splitnetloc(url, 2)\<close>, when the URL starts with \<open>//\<close>: the network location and the
  rest of the URL.
\<close>

definition is_netloc_end :: "char \<Rightarrow> bool" where
  "is_netloc_end c = (c \<in> set ''/?#'')"

definition not_netloc_end :: "char \<Rightarrow> bool" where
  "not_netloc_end c = (\<not> is_netloc_end c)"

definition netloc_of :: "string \<Rightarrow> string" where
  "netloc_of url = (if take 2 url = ''//'' then takeWhile not_netloc_end (drop 2 url) else [])"

definition drop_netloc :: "string \<Rightarrow> string" where
  "drop_netloc url =
     (if take 2 url = ''//'' then dropWhile not_netloc_end (drop 2 url) else url)"

text \<open>Whether \<open>urlsplit\<close> raises \<open>ValueError\<close> for the network location.\<close>

definition netloc_raises :: "(string \<Rightarrow> bool) \<Rightarrow> string \<Rightarrow> bool" where
  "netloc_raises netloc_ok netloc =
     (let opening = CHR ''['' \<in> set netloc; closing = CHR '']'' \<in> set netloc in
      (opening \<and> \<not> closing) \<or> (closing \<and> \<not> opening) \<or>
      (((opening \<and> closing) \<or> filter not_ascii netloc \<noteq> []) \<and> \<not> netloc_ok netloc))"

text \<open>\<open>_splitparams(url)[0]\<close>: the parameters of the last segment are cut off.\<close>

definition splitparams_path :: "string \<Rightarrow> string" where
  "splitparams_path url =
     (let head = path_head url in
      head @ takeWhile (\<lambda>c. c \<noteq> CHR '';'') (drop (length head) url))"

definition urlparse_path :: "(string \<Rightarrow> bool) \<Rightarrow> string \<Rightarrow> py_error + string" where
  "urlparse_path netloc_ok url0 =
     (let url1 = dropWhile (\<lambda>c. (of_char c :: nat) \<le> 32) url0;
          url2 = filter (\<lambda>c. (of_char c :: nat) \<notin> {9, 10, 13}) url1;
          (scheme, url3) = split_scheme url2;
          url4 = drop_netloc url3;
          url5 = takeWhile (\<lambda>c. c \<noteq> CHR ''#'') url4;
          url6 = takeWhile (\<lambda>c. c \<noteq> CHR ''?'') url5
      in if netloc_raises netloc_ok (netloc_of url3) then Inl ValueError
         else if scheme \<in> set uses_params \<and> CHR '';'' \<in> set url6
         then Inr (splitparams_path url6) else Inr url6)"

section \<open>The link resolver\<close>

text \<open>
  \<open>_resolve_github_wiki_link(original_ref, github_wiki_root, dir)\<close>; \<open>None\<close> is Python's
  \<open>None\<close>.  The reference is parsed first, then the wiki root; a \<open>ValueError\<close> of
  \<open>urlparse\<close> leaves the function.
\<close>

definition resolve_github_wiki_link ::
  "(string \<Rightarrow> bool) \<Rightarrow> string \<Rightarrow> string \<Rightarrow> string \<Rightarrow> py_error + string option" where
  "resolve_github_wiki_link netloc_ok original_ref github_wiki_root0 dir =
     (let github_wiki_root =
            (if \<not> endswith github_wiki_root0 ''/'' then github_wiki_root0 @ ''/''
             else github_wiki_root0)
      in if startswith original_ref github_wiki_root
         then
           (case urlparse_path netloc_ok original_ref of
              Inl e \<Rightarrow> Inl e
            | Inr ref_path \<Rightarrow>
                (case urlparse_path netloc_ok github_wiki_root of
                   Inl e \<Rightarrow> Inl e
                 | Inr root_path \<Rightarrow>
                     (let ref = unquote ref_path;
                          wiki_path = unquote root_path;
                          ref = str_replace ref wiki_path [];
                          ref = ref @ ''.md'';
                          ref = path_join dir ref
                      in Inr (Some ref))))
         else Inr None)"

text \<open>
  The loop of \<open>_resolve_link\<close> over the wiki roots: the first root that resolves the
  reference wins.
\<close>

fun first_wiki_ref ::
  "(string \<Rightarrow> bool) \<Rightarrow> string \<Rightarrow> string list \<Rightarrow> string \<Rightarrow> py_error + string option" where
  "first_wiki_ref netloc_ok original_ref [] dir = Inr None"
| "first_wiki_ref netloc_ok original_ref (github_wiki_root # github_wiki_roots) dir =
     (case resolve_github_wiki_link netloc_ok original_ref github_wiki_root dir of
        Inl e \<Rightarrow> Inl e
      | Inr (Some ref) \<Rightarrow> Inr (Some ref)
      | Inr None \<Rightarrow> first_wiki_ref netloc_ok original_ref github_wiki_roots dir)"

text \<open>
  \<open>_resolve_link\<close>.  Its argument \<open>group0\<close> is the text of the match,
  \<open>matchobj.group(0)\<close>; \<open>get_browseable_url\<close> gives the URL of a remote page.
\<close>

definition lookup_url ::
  "(handle \<Rightarrow> string) \<Rightarrow> (string \<rightharpoonup> handle) \<Rightarrow> string \<Rightarrow> string \<Rightarrow> string" where
  "lookup_url get_browseable_url filename_to_notion resolved_ref original_ref =
     (let url = (case filename_to_notion resolved_ref of
                   Some h \<Rightarrow> get_browseable_url h
                 | None \<Rightarrow> original_ref)
      in ''('' @ url @ '')'')"

definition resolve_link ::
  "(string \<Rightarrow> bool) \<Rightarrow> (handle \<Rightarrow> string) \<Rightarrow> string \<Rightarrow> Page \<Rightarrow> (string \<rightharpoonup> handle) \<Rightarrow>
   string \<Rightarrow> string list \<Rightarrow> py_error + string" where
  "resolve_link netloc_ok get_browseable_url group0 page filename_to_notion dir
     github_wiki_roots =
     (let original_ref = butlast (tl group0) in
      if startswith original_ref ''./''
      then Inr (lookup_url get_browseable_url filename_to_notion
                  (normpath (path_join (dirname (filename page)) original_ref)) original_ref)
      else (case first_wiki_ref netloc_ok original_ref github_wiki_roots dir of
              Inl e \<Rightarrow> Inl e
            | Inr None \<Rightarrow> Inr (''('' @ original_ref @ '')'')
            | Inr (Some ref) \<Rightarrow>
                Inr (lookup_url get_browseable_url filename_to_notion ref original_ref)))"

text \<open>
  \<open>re.sub(r"\(.+\)", repl, content)\<close>.  A match starts at an opening parenthesis;
  \<open>.+\<close> is greedy and does not cross a line break, so the match ends at the last closing
  parenthesis of the line that leaves at least one character in between.  The search goes
  on after the match.  The matches are replaced from left to right, and an exception of
  \<open>repl\<close> leaves \<open>re.sub\<close>.
\<close>

definition paren_match :: "string \<Rightarrow> string" where
  "paren_match cs =
     rev (dropWhile (\<lambda>x. x \<noteq> CHR '')'') (rev (takeWhile (\<lambda>x. x \<noteq> CHR 0x0A) cs)))"

function re_sub_paren :: "(string \<Rightarrow> py_error + string) \<Rightarrow> string \<Rightarrow> py_error + string" where
  "re_sub_paren repl [] = Inr []"
| "re_sub_paren repl (c # cs) =
     (if c = CHR ''('' \<and> 2 \<le> length (paren_match cs)
      then (case repl (c # paren_match cs) of
              Inl e \<Rightarrow> Inl e
            | Inr new \<Rightarrow>
                (case re_sub_paren repl (drop (length (paren_match cs)) cs) of
                   Inl e \<Rightarrow> Inl e
                 | Inr rest \<Rightarrow> Inr (new @ rest)))
      else (case re_sub_paren repl cs of
              Inl e \<Rightarrow> Inl e
            | Inr rest \<Rightarrow> Inr (c # rest)))"
  by pat_completeness auto
termination
  by (relation "measure (\<lambda>(repl, s). length s)") auto

section \<open>\<open>update_link_notion_hierarchy\<close> and \<open>export_notion_page\<close>\<close>

text \<open>
  \<open>export_notion_page(notion_page, page, filename)\<close>, the scratch file \<open>filename\<close> being
  given by its content; the retry imports an empty temporary file.
\<close>

definition export_notion_page ::
  "handle \<Rightarrow> Page \<Rightarrow> string \<Rightarrow> remote \<Rightarrow> (py_error + unit) \<times> remote" where
  "export_notion_page np page content r =
     (case import_file content np r of
        (Inr u, r1) \<Rightarrow> (Inr (), set_title np (title page) r1)
      | (Inl e, r1) \<Rightarrow>
          (if e = IOError
           then (case import_file [] np r1 of
                   (Inr u, r2) \<Rightarrow> (Inr (), set_title np (title page) r2)
                 | (Inl e2, r2) \<Rightarrow> (Inl e2, r2))
           else (Inl e, r1)))"

text \<open>
  The local side of the upload: \<open>read_file\<close> gives the content of the files that can be
  read (\<open>open\<close> raises \<open>IOError\<close> for the others), \<open>write_error\<close> the exception, if any, that
  writing and flushing a content to the scratch file raises.
\<close>

record local_env =
  read_file :: "string \<rightharpoonup> string"
  write_error :: "string \<Rightarrow> py_error option"

text \<open>
  The content that \<open>update_link_notion_hierarchy\<close> uploads for a page: empty when the
  file cannot be read, the text of the file with its references rewritten otherwise.  An
  exception of the rewriting is not caught.
\<close>

definition page_content ::
  "(string \<Rightarrow> bool) \<Rightarrow> local_env \<Rightarrow> (handle \<Rightarrow> string) \<Rightarrow> (string \<rightharpoonup> handle) \<Rightarrow> string \<Rightarrow>
   string list \<Rightarrow> Page \<Rightarrow> py_error + string" where
  "page_content netloc_ok env get_browseable_url filename_to_notion dir github_wiki_roots page =
     (case read_file env (filename page) of
        None \<Rightarrow> Inr []
      | Some raw \<Rightarrow>
          re_sub_paren
            (\<lambda>group0. resolve_link netloc_ok get_browseable_url group0 page filename_to_notion
               dir github_wiki_roots)
            raw)"

text \<open>
  One iteration of the loop of \<open>update_link_notion_hierarchy\<close>: the content is written to
  the scratch file, outside of any \<open>try\<close>, and \<open>export_notion_page\<close> is called with the
  page mapped to the filename.
\<close>

definition update_link_step ::
  "(string \<Rightarrow> bool) \<Rightarrow> local_env \<Rightarrow> (handle \<Rightarrow> string) \<Rightarrow> (string \<rightharpoonup> handle) \<Rightarrow> string \<Rightarrow>
   string list \<Rightarrow> Page \<Rightarrow> remote \<Rightarrow> (py_error + unit) \<times> remote" where
  "update_link_step netloc_ok env get_browseable_url filename_to_notion dir github_wiki_roots
     page r =
     (if type page = ROOT then (Inr (), r)
      else
        (case page_content netloc_ok env get_browseable_url filename_to_notion dir
                github_wiki_roots page of
           Inl e \<Rightarrow> (Inl e, r)
         | Inr content \<Rightarrow>
             (case write_error env content of
                Some e \<Rightarrow> (Inl e, r)
              | None \<Rightarrow>
                  (case filename_to_notion (filename page) of
                     None \<Rightarrow> (Inl KeyError, r)
                   | Some np \<Rightarrow> export_notion_page np page content r))))"

fun update_link_loop ::
  "(string \<Rightarrow> bool) \<Rightarrow> local_env \<Rightarrow> (handle \<Rightarrow> string) \<Rightarrow> (string \<rightharpoonup> handle) \<Rightarrow> string \<Rightarrow>
   string list \<Rightarrow> Page list \<Rightarrow> remote \<Rightarrow> (py_error + unit) \<times> remote" where
  "update_link_loop netloc_ok env get_browseable_url filename_to_notion dir github_wiki_roots
     [] r = (Inr (), r)"
| "update_link_loop netloc_ok env get_browseable_url filename_to_notion dir github_wiki_roots
     (page # pages) r =
     (case update_link_step netloc_ok env get_browseable_url filename_to_notion dir
             github_wiki_roots page r of
        (Inl e, r') \<Rightarrow> (Inl e, r')
      | (Inr u, r') \<Rightarrow>
          update_link_loop netloc_ok env get_browseable_url filename_to_notion dir
            github_wiki_roots pages r')"

definition update_link_notion_hierarchy ::
  "(string \<Rightarrow> bool) \<Rightarrow> local_env \<Rightarrow> (handle \<Rightarrow> string) \<Rightarrow> Page list \<Rightarrow>
   (string \<rightharpoonup> handle) \<Rightarrow> string \<Rightarrow> string list \<Rightarrow> remote \<Rightarrow> (py_error + unit) \<times> remote" where
  "update_link_notion_hierarchy netloc_ok env get_browseable_url hierarchy filename_to_notion
     dir github_wiki_roots r =
     update_link_loop netloc_ok env get_browseable_url filename_to_notion dir
       github_wiki_roots hierarchy r"

section \<open>Notions used to state the properties\<close>

text \<open>
  The move that \<open>move_pages_notion_hierarchy\<close> issues for a page, the pages it does not
  skip, and the pages whose two lookups in the mapping succeed.
\<close>

definition move_call :: "(string \<rightharpoonup> handle) \<Rightarrow> Page \<Rightarrow> call" where
  "move_call m p = Move (the (m (filename p))) (the (m (parent_filename p))) ''first-child''"

definition not_root :: "Page \<Rightarrow> bool" where
  "not_root p = (type p \<noteq> ROOT)"

definition movable :: "(string \<rightharpoonup> handle) \<Rightarrow> Page \<Rightarrow> bool" where
  "movable m p = (m (parent_filename p) \<noteq> None \<and> m (filename p) \<noteq> None)"

text \<open>What the \<open>k\<close>-th of the coming \<open>import_file\<close> calls does.\<close>

definition import_outcome :: "remote \<Rightarrow> nat \<Rightarrow> py_error option" where
  "import_outcome r k = (if k < length (import_script r) then import_script r ! k else None)"

text \<open>Concrete surroundings for the examples.\<close>

definition example_url :: "handle \<Rightarrow> string" where
  "example_url h =
     ''https://www.notion.so/'' @
     (if h = 3 then ''a'' else if h = 4 then ''b'' else if h = 5 then ''c'' else ''page'')"

definition example_remote :: "py_error option list \<Rightarrow> remote" where
  "example_remote script = \<lparr>next_handle = 13, calls = [], blocks = [], import_script = script\<rparr>"

definition no_write_error :: "string \<Rightarrow> py_error option" where
  "no_write_error content = None"

definition write_raises_IOError :: "string \<Rightarrow> py_error option" where
  "write_raises_IOError content = Some IOError"

definition example_env :: "(string \<Rightarrow> py_error option) \<Rightarrow> local_env" where
  "example_env w = \<lparr>read_file = [''a/c.md'' \<mapsto> ''see (./b.md)''], write_error = w\<rparr>"

definition example_mapping :: "string \<rightharpoonup> handle" where
  "example_mapping = [''a/index.md'' \<mapsto> 3, ''a/b.md'' \<mapsto> 4, ''a/c.md'' \<mapsto> 5]"

definition example_leave :: Page where
  "example_leave = mk_Page LEAVE ''a/index.md'' ''a/c.md''"

text \<open>\<open>occurs_in pat s\<close>: the string \<open>pat\<close> occurs in \<open>s\<close> (Python's \<open>pat in s\<close>).\<close>

fun occurs_in :: "string \<Rightarrow> string \<Rightarrow> bool" where
  "occurs_in pat [] = (pat = [])"
| "occurs_in pat (c # cs) = (startswith (c # cs) pat \<or> occurs_in pat cs)"

text \<open>Three documents: one reference each in two of them, both on one line in the third.\<close>

definition two_links_env :: local_env where
  "two_links_env =
     \<lparr>read_file = [''a/c.md'' \<mapsto> ''(./b.md) and (./index.md)'', ''a/d.md'' \<mapsto> ''(./b.md)'',
                   ''a/e.md'' \<mapsto> ''(./index.md)''],
      write_error = no_write_error\<rparr>"

text \<open>
  The directories that the walk visits and the files that become leaves, counted on the
  tree itself: a sub-directory \<open>.git\<close> is not entered, at any depth, so neither it nor
  anything below it is counted.
\<close>

function dirs_visited :: "dirtree \<Rightarrow> nat" where
  "dirs_visited (Dir subs fs) = Suc (sum_list (map (\<lambda>(name, t). dirs_visited t) (remove_git subs)))"
  by pat_completeness auto
termination
proof (relation "measure size")
  show "wf (measure size)" by simp
next
  fix subs fs and x :: "string \<times> dirtree" and name t
  assume "x \<in> set (remove_git subs)" and "(name, t) = x"
  then have "(name, t) \<in> set subs" using remove_git_subset by fastforce
  then show "(t, Dir subs fs) \<in> measure size"
    using size_subdir by fastforce
qed

function leave_files :: "dirtree \<Rightarrow> nat" where
  "leave_files (Dir subs fs) =
     length (filter is_leave_name fs) +
     sum_list (map (\<lambda>(name, t). leave_files t) (remove_git subs))"
  by pat_completeness auto
termination
proof (relation "measure size")
  show "wf (measure size)" by simp
next
  fix subs fs and x :: "string \<times> dirtree" and name t
  assume "x \<in> set (remove_git subs)" and "(name, t) = x"
  then have "(name, t) \<in> set subs" using remove_git_subset by fastforce
  then show "(t, Dir subs fs) \<in> measure size"
    using size_subdir by fastforce
qed

text \<open>The number of page descriptors of one kind.\<close>

definition count_type :: "PageType \<Rightarrow> Page list \<Rightarrow> nat" where
  "count_type k h = length (filter (\<lambda>p. type p = k) h)"

text \<open>
  The outcome of one iteration of \<open>create_notion_hierarchy\<close> that creates the page under the
  parent \<open>ph\<close>: the call is issued with the title of the page, the handle it returns is
  recorded under the filename of the page, and it becomes \<open>root_notion_page\<close> when the
  page is the root.
\<close>

definition created :: "Page \<Rightarrow> handle \<Rightarrow> (string \<rightharpoonup> handle) \<Rightarrow> handle option \<Rightarrow> remote \<Rightarrow>
   (py_error + (string \<rightharpoonup> handle) \<times> handle option) \<times> remote" where
  "created page ph m root r =
     (Inr (m(filename page \<mapsto> next_handle r),
           if type page = ROOT then Some (next_handle r) else root),
      r\<lparr>next_handle := Suc (next_handle r),
        calls := calls r @ [Create ph (title page) (next_handle r)]\<rparr>)"

text \<open>A workspace that resolves the URL of the root parent, and the hierarchy of the tree
  \<open>root > a > a/b.md\<close>.\<close>

definition example_workspace :: remote where
  "example_workspace =
     \<lparr>next_handle = 10, calls = [], blocks = [(''https://www.notion.so/parent'', 1)],
      import_script = []\<rparr>"

definition hierarchy3 :: "Page list" where
  "hierarchy3 =
     [mk_Page ROOT [] ''root/index.md'',
      mk_Page NODE ''root/index.md'' ''root/a/index.md'',
      mk_Page LEAVE ''root/a/index.md'' ''root/a/b.md'']"

text \<open>
  Notions for the references between the descriptors of a hierarchy: the index path of a
  directory; the names a directory listing can contain (not empty, no slash); a root path
  that does not end in two slashes, unless it consists of slashes only; and a sequence of
  descriptors in which every parent filename that is not empty is in \<open>S\<close> or is the
  filename of an earlier descriptor.
\<close>

definition index_of :: "string \<Rightarrow> string" where
  "index_of d = path_join d ''index.md''"

definition wf_name :: "string \<Rightarrow> bool" where
  "wf_name n = (n \<noteq> [] \<and> filter is_sep n = [])"

fun wf_tree :: "dirtree \<Rightarrow> bool" and wf_subs :: "(string \<times> dirtree) list \<Rightarrow> bool" where
  "wf_tree (Dir subs fs) = wf_subs subs"
| "wf_subs [] = True"
| "wf_subs ((n, t) # es) = (wf_name n \<and> wf_tree t \<and> wf_subs es)"

definition tidy :: "string \<Rightarrow> bool" where
  "tidy path = (filter not_sep path = [] \<or> \<not> endswith path ''//'')"

fun refs_ok :: "string set \<Rightarrow> Page list \<Rightarrow> bool" where
  "refs_ok S [] = True"
| "refs_ok S (p # ps) =
     ((parent_filename p = [] \<or> parent_filename p \<in> S) \<and> refs_ok (insert (filename p) S) ps)"

text \<open>The descriptors of the directories of a walk, none of them being the first.\<close>

definition node_pages :: "(string \<times> string list \<times> string list) list \<Rightarrow> Page list" where
  "node_pages w = concat (map (\<lambda>e. hierarchy_step (Suc 0, e)) w)"

text \<open>
  The wiki root as \<open>_resolve_github_wiki_link\<close> compares it with a reference: with a slash
  appended when it does not end in one.
\<close>

definition slashed :: "string \<Rightarrow> string" where
  "slashed root = (if \<not> endswith root ''/'' then root @ ''/'' else root)"

definition matches_root :: "string \<Rightarrow> string \<Rightarrow> bool" where
  "matches_root ref root = startswith ref (slashed root)"

definition no_match :: "string \<Rightarrow> string \<Rightarrow> bool" where
  "no_match ref root = (\<not> matches_root ref root)"

text \<open>
  The files of the whole tree whose name ends in \<open>.md\<close> and is not \<open>index.md\<close>, the
  directories named \<open>.git\<close> included.
\<close>

function all_leave_files :: "dirtree \<Rightarrow> nat" where
  "all_leave_files (Dir subs fs) =
     length (filter is_leave_name fs) + sum_list (map (\<lambda>(name, t). all_leave_files t) subs)"
  by pat_completeness auto
termination
proof (relation "measure size")
  show "wf (measure size)" by simp
next
  fix subs fs and x :: "string \<times> dirtree" and name t
  assume "x \<in> set subs" and "(name, t) = x"
  then have "(name, t) \<in> set subs" by simp
  then show "(t, Dir subs fs) \<in> measure size"
    using size_subdir by fastforce
qed

text \<open>No directory of the tree is named \<open>.git\<close>.\<close>

fun no_git :: "dirtree \<Rightarrow> bool" and no_git_subs :: "(string \<times> dirtree) list \<Rightarrow> bool" where
  "no_git (Dir subs fs) = no_git_subs subs"
| "no_git_subs [] = True"
| "no_git_subs ((n, t) # es) = (n \<noteq> ''.git'' \<and> no_git t \<and> no_git_subs es)"

text \<open>
  The handle of the last Root among pages that are created one after the other, the first
  of them with the handle \<open>n\<close>.
\<close>

fun root_handle :: "handle \<Rightarrow> Page list \<Rightarrow> handle option" where
  "root_handle n [] = None"
| "root_handle n (p # ps) =
     (case root_handle (Suc n) ps of
        Some h \<Rightarrow> Some h
      | None \<Rightarrow> if type p = ROOT then Some n else None)"

text \<open>
  What \<open>create_notion_hierarchy\<close> returns when, with the mapping \<open>m\<close> and the remote state
  \<open>r\<close>, it creates a last page under the parent \<open>ph\<close>.
\<close>

definition recorded ::
  "Page \<Rightarrow> handle \<Rightarrow> (string \<rightharpoonup> handle) \<Rightarrow> remote \<Rightarrow>
   (py_error + (string \<rightharpoonup> handle)) \<times> remote" where
  "recorded page ph m r =
     (Inr (m(filename page \<mapsto> next_handle r)),
      r\<lparr>next_handle := Suc (next_handle r),
        calls := calls r @ [Create ph (title page) (next_handle r)]\<rparr>)"

text \<open>An answer of the two library checks on network locations, for the examples.\<close>

definition example_netloc_ok :: "string \<Rightarrow> bool" where
  "example_netloc_ok netloc = True"

chapter \<open>Verified properties\<close>

section \<open>Properties of the link resolver\<close>

lemma normpath_sibling:
  "normpath (path_join (dirname ''a/index.md'') ''./sibling.md'') = ''a/sibling.md''"
  by code_simp

text \<open>
  Claim C5.  In the document \<open>a/index.md\<close>, the reference \<open>(./sibling.md)\<close> is looked up
  under the normalised path \<open>a/sibling.md\<close>, for every mapping: when the mapping has
  that key, the reference is replaced by the browseable URL of the mapped page (between
  the parentheses of the reference); when it has not, the replacement is the literal
  text \<open>(./sibling.md)\<close>.  No exception is raised.
\<close>

theorem resolve_link_sibling:
  "filename page = ''a/index.md'' \<Longrightarrow>
   resolve_link netloc_ok get_browseable_url ''(./sibling.md)'' page filename_to_notion dir
     github_wiki_roots =
     Inr (case filename_to_notion ''a/sibling.md'' of
            Some h \<Rightarrow> ''('' @ get_browseable_url h @ '')''
          | None \<Rightarrow> ''(./sibling.md)'')"
  by (simp add: resolve_link_def lookup_url_def startswith_def normpath_sibling
      split: option.splits)

theorem resolve_link_sibling_witness:
  "filename (mk_Page NODE ''index.md'' ''a/index.md'') = ''a/index.md'' \<and>
   resolve_link (\<lambda>n. True) (\<lambda>h. ''https://notion.so/p'') ''(./sibling.md)''
     (mk_Page NODE ''index.md'' ''a/index.md'') [''a/sibling.md'' \<mapsto> 7] ''.'' [] =
     Inr ''(https://notion.so/p)'' \<and>
   resolve_link (\<lambda>n. True) (\<lambda>h. ''https://notion.so/p'') ''(./sibling.md)''
     (mk_Page NODE ''index.md'' ''a/index.md'') Map.empty ''.'' [] = Inr ''(./sibling.md)''"
  using
    resolve_link_sibling [of "mk_Page NODE ''index.md'' ''a/index.md''" "\<lambda>n. True"
      "\<lambda>h. ''https://notion.so/p''" "[''a/sibling.md'' \<mapsto> 7]" "''.''" "[]"]
    resolve_link_sibling [of "mk_Page NODE ''index.md'' ''a/index.md''" "\<lambda>n. True"
      "\<lambda>h. ''https://notion.so/p''" "Map.empty" "''.''" "[]"]
  by (simp add: mk_Page_def)

lemma group0_inner: "butlast (tl (''('' @ ref @ '')'')) = ref"
  by (simp add: butlast_append)

lemma wiki_None:
  "\<not> startswith ref (slashed root) \<Longrightarrow> resolve_github_wiki_link netloc_ok ref root dir = Inr None"
  unfolding resolve_github_wiki_link_def Let_def slashed_def by (simp only: if_False)

lemma wiki_Some:
  "startswith ref (slashed root) \<Longrightarrow>
   resolve_github_wiki_link netloc_ok ref root dir =
     (case urlparse_path netloc_ok ref of
        Inl e \<Rightarrow> Inl e
      | Inr ref_path \<Rightarrow>
          (case urlparse_path netloc_ok (slashed root) of
             Inl e \<Rightarrow> Inl e
           | Inr root_path \<Rightarrow>
               Inr (Some (path_join dir
                 (str_replace (unquote ref_path) (unquote root_path) [] @ ''.md'')))))"
  unfolding resolve_github_wiki_link_def Let_def slashed_def by (simp only: if_True)

lemma wiki_match_not_None:
  "startswith ref (slashed root) \<Longrightarrow> resolve_github_wiki_link netloc_ok ref root dir \<noteq> Inr None"
  unfolding wiki_Some by (simp split: sum.splits)

lemma first_wiki_ref_None:
  "list_all (no_match ref) roots \<Longrightarrow> first_wiki_ref netloc_ok ref roots dir = Inr None"
  by (induction roots) (simp_all add: no_match_def matches_root_def wiki_None)

lemma first_wiki_ref_first:
  "list_all (no_match ref) pre \<Longrightarrow> matches_root ref g \<Longrightarrow>
   first_wiki_ref netloc_ok ref (pre @ g # post) dir =
     resolve_github_wiki_link netloc_ok ref g dir"
proof (induction pre)
  case Nil
  from Nil.prems(2) have "resolve_github_wiki_link netloc_ok ref g dir \<noteq> Inr None"
    unfolding matches_root_def by (rule wiki_match_not_None)
  then show ?case
    by (cases "resolve_github_wiki_link netloc_ok ref g dir") (auto split: option.splits)
next
  case (Cons a pre)
  then show ?case by (simp add: no_match_def matches_root_def wiki_None)
qed

lemma resolve_link_relative:
  "startswith ref ''./'' \<Longrightarrow>
   resolve_link netloc_ok url (''('' @ ref @ '')'') page m dir roots =
     Inr (lookup_url url m (normpath (path_join (dirname (filename page)) ref)) ref)"
  unfolding resolve_link_def group0_inner by simp

lemma resolve_link_other:
  "\<not> startswith ref ''./'' \<Longrightarrow>
   resolve_link netloc_ok url (''('' @ ref @ '')'') page m dir roots =
     (case first_wiki_ref netloc_ok ref roots dir of
        Inl e \<Rightarrow> Inl e
      | Inr None \<Rightarrow> Inr (''('' @ ref @ '')'')
      | Inr (Some key) \<Rightarrow> Inr (lookup_url url m key ref))"
  unfolding resolve_link_def group0_inner by simp

text \<open>
  Claim C10.  A reference is resolved against the directory of the current document
  exactly when it starts with the two characters \<open>./\<close>.  Any other reference (one
  starting with \<open>../\<close>, a bare name such as \<open>sibling.md\<close>) is tried against the wiki
  roots, in their order, and against nothing else: its replacement is the same for every
  current document; when no wiki root is a prefix of it, it is returned as it stands,
  wrapped in parentheses; and when a wiki root is a prefix of it, the first such root
  decides, the key that \<open>_resolve_github_wiki_link\<close> gives for that root being looked up in
  the mapping (or its exception raised), whatever the roots after it are.
\<close>

theorem resolve_link_relative_marker:
  "(startswith ref ''./'' \<longrightarrow>
      resolve_link netloc_ok url (''('' @ ref @ '')'') page m dir roots =
        Inr (lookup_url url m (normpath (path_join (dirname (filename page)) ref)) ref)) \<and>
   (\<not> startswith ref ''./'' \<longrightarrow>
      resolve_link netloc_ok url (''('' @ ref @ '')'') page m dir roots =
        resolve_link netloc_ok url (''('' @ ref @ '')'') page' m dir roots) \<and>
   (\<not> startswith ref ''./'' \<and> list_all (no_match ref) roots \<longrightarrow>
      resolve_link netloc_ok url (''('' @ ref @ '')'') page m dir roots =
        Inr (''('' @ ref @ '')'')) \<and>
   (\<not> startswith ref ''./'' \<and> roots = pre @ g # post \<and> list_all (no_match ref) pre \<and>
    matches_root ref g \<longrightarrow>
      resolve_github_wiki_link netloc_ok ref g dir \<noteq> Inr None \<and>
      resolve_link netloc_ok url (''('' @ ref @ '')'') page m dir roots =
        (case resolve_github_wiki_link netloc_ok ref g dir of
           Inl e \<Rightarrow> Inl e
         | Inr key \<Rightarrow> Inr (lookup_url url m (the key) ref))) \<and>
   \<not> startswith (''../'' @ rest) ''./'' \<and> \<not> startswith ''sibling.md'' ''./''"
proof (intro conjI impI)
  assume "startswith ref ''./''"
  then show "resolve_link netloc_ok url (''('' @ ref @ '')'') page m dir roots =
        Inr (lookup_url url m (normpath (path_join (dirname (filename page)) ref)) ref)"
    by (rule resolve_link_relative)
next
  assume h: "\<not> startswith ref ''./''"
  show "resolve_link netloc_ok url (''('' @ ref @ '')'') page m dir roots =
        resolve_link netloc_ok url (''('' @ ref @ '')'') page' m dir roots"
    unfolding resolve_link_other [OF h] by (rule refl)
next
  assume h: "\<not> startswith ref ''./'' \<and> list_all (no_match ref) roots"
  then have n: "\<not> startswith ref ''./''" and a: "list_all (no_match ref) roots" by blast+
  show "resolve_link netloc_ok url (''('' @ ref @ '')'') page m dir roots = Inr (''('' @ ref @ '')'')"
    unfolding resolve_link_other [OF n] first_wiki_ref_None [OF a] by simp
next
  assume h: "\<not> startswith ref ''./'' \<and> roots = pre @ g # post \<and> list_all (no_match ref) pre \<and>
    matches_root ref g"
  then show "resolve_github_wiki_link netloc_ok ref g dir \<noteq> Inr None"
    unfolding matches_root_def using wiki_match_not_None by blast
next
  assume h: "\<not> startswith ref ''./'' \<and> roots = pre @ g # post \<and> list_all (no_match ref) pre \<and>
    matches_root ref g"
  then have n: "\<not> startswith ref ''./''" and r: "roots = pre @ g # post"
    and a: "list_all (no_match ref) pre" and g: "matches_root ref g" by blast+
  have nn: "resolve_github_wiki_link netloc_ok ref g dir \<noteq> Inr None"
    using g unfolding matches_root_def by (rule wiki_match_not_None)
  show "resolve_link netloc_ok url (''('' @ ref @ '')'') page m dir roots =
        (case resolve_github_wiki_link netloc_ok ref g dir of
           Inl e \<Rightarrow> Inl e
         | Inr key \<Rightarrow> Inr (lookup_url url m (the key) ref))"
    unfolding resolve_link_other [OF n] r first_wiki_ref_first [OF a g]
    using nn by (cases "resolve_github_wiki_link netloc_ok ref g dir") (auto split: option.splits)
next
  show "\<not> startswith (''../'' @ rest) ''./''" by (simp add: startswith_def)
next
  show "\<not> startswith ''sibling.md'' ''./''" by (simp add: startswith_def)
qed

lemma ex_paths:
  "urlparse_path netloc_ok ''https://example.com/proj/wiki/Some%20Page'' =
     Inr ''/proj/wiki/Some%20Page''"
  "urlparse_path netloc_ok ''https://example.com/proj/wiki/'' = Inr ''/proj/wiki/''"
  "urlparse_path netloc_ok ''https://other.org/proj/wiki/Some%20Page'' =
     Inr ''/proj/wiki/Some%20Page''"
  "urlparse_path netloc_ok ''https://example.com/proj/wiki'' = Inr ''/proj/wiki''"
  by code_simp+

lemma ex_unquote:
  "unquote ''/proj/wiki/Some%20Page'' = ''/proj/wiki/Some Page''"
  "unquote ''/proj/wiki/'' = ''/proj/wiki/''"
  "unquote ''/proj/wiki'' = ''/proj/wiki''"
  by code_simp+

lemma ex_replace: "str_replace ''/proj/wiki/Some Page'' ''/proj/wiki/'' [] = ''Some Page''"
  by code_simp

lemma ex_root: "slashed ''https://example.com/proj/wiki'' = ''https://example.com/proj/wiki/''"
  by (simp add: slashed_def endswith_def)

lemma ex_match:
  "matches_root ''https://example.com/proj/wiki/Some%20Page'' ''https://example.com/proj/wiki''"
  unfolding matches_root_def ex_root by (simp add: startswith_def)

lemma ex_key:
  "resolve_github_wiki_link netloc_ok ''https://example.com/proj/wiki/Some%20Page''
     ''https://example.com/proj/wiki'' dir = Inr (Some (path_join dir ''Some Page.md''))"
proof -
  have "resolve_github_wiki_link netloc_ok ''https://example.com/proj/wiki/Some%20Page''
     ''https://example.com/proj/wiki'' dir =
     Inr (Some (path_join dir
       (str_replace ''/proj/wiki/Some Page'' ''/proj/wiki/'' [] @ ''.md'')))"
    unfolding wiki_Some [OF ex_match [unfolded matches_root_def]] ex_root ex_paths
    by (simp only: sum.case ex_unquote)
  also have "str_replace ''/proj/wiki/Some Page'' ''/proj/wiki/'' [] @ ''.md'' = ''Some Page.md''"
    unfolding ex_replace by simp
  finally show ?thesis .
qed

theorem resolve_link_relative_marker_witness:
  "\<not> startswith ''../b.md'' ''./'' \<and>
   list_all (no_match ''../b.md'') [''https://example.com/proj/wiki''] \<and>
   startswith ''./b.md'' ''./'' \<and>
   \<not> startswith ''https://example.com/proj/wiki/Some%20Page'' ''./'' \<and>
   list_all (no_match ''https://example.com/proj/wiki/Some%20Page'') [''https://other.org/w''] \<and>
   matches_root ''https://example.com/proj/wiki/Some%20Page'' ''https://example.com/proj/wiki'' \<and>
   resolve_link (\<lambda>n. True) (\<lambda>h. ''URL'') ''(../b.md)''
     (mk_Page LEAVE ''a/index.md'' ''a/c.md'')
     [''b.md'' \<mapsto> 3, ''a/b.md'' \<mapsto> 4, ''docs/Some Page.md'' \<mapsto> 5] ''docs''
     [''https://example.com/proj/wiki''] = Inr ''(../b.md)'' \<and>
   resolve_link (\<lambda>n. True) (\<lambda>h. ''URL'') ''(./b.md)''
     (mk_Page LEAVE ''a/index.md'' ''a/c.md'')
     [''b.md'' \<mapsto> 3, ''a/b.md'' \<mapsto> 4, ''docs/Some Page.md'' \<mapsto> 5] ''docs''
     [''https://example.com/proj/wiki''] = Inr ''(URL)'' \<and>
   resolve_link (\<lambda>n. True) (\<lambda>h. ''URL'') ''(https://example.com/proj/wiki/Some%20Page)''
     (mk_Page LEAVE ''a/index.md'' ''a/c.md'')
     [''b.md'' \<mapsto> 3, ''a/b.md'' \<mapsto> 4, ''docs/Some Page.md'' \<mapsto> 5] ''docs''
     [''https://other.org/w'', ''https://example.com/proj/wiki'', ''https://example.com/proj''] =
     Inr ''(URL)'' \<and>
   resolve_link (\<lambda>n. True) (\<lambda>h. ''URL'') ''(https://example.com/proj/wiki/Some%20Page)''
     (mk_Page LEAVE ''a/index.md'' ''a/c.md'')
     [''b.md'' \<mapsto> 3, ''a/b.md'' \<mapsto> 4] ''docs''
     [''https://other.org/w'', ''https://example.com/proj/wiki'', ''https://example.com/proj''] =
     Inr ''(https://example.com/proj/wiki/Some%20Page)''"
proof -
  let ?page = "mk_Page LEAVE ''a/index.md'' ''a/c.md''"
  let ?m = "[''b.md'' \<mapsto> 3, ''a/b.md'' \<mapsto> 4, ''docs/Some Page.md'' \<mapsto> 5 :: handle]"
  let ?m2 = "[''b.md'' \<mapsto> 3, ''a/b.md'' \<mapsto> 4 :: handle]"
  let ?roots = "[''https://example.com/proj/wiki'']"
  let ?w = "''https://example.com/proj/wiki/Some%20Page''"
  let ?roots3 = "[''https://other.org/w'', ''https://example.com/proj/wiki'',
                  ''https://example.com/proj'']"
  have a: "\<not> startswith ''../b.md'' ''./''" by (simp add: startswith_def)
  have b: "list_all (no_match ''../b.md'') ?roots"
    by (simp add: no_match_def matches_root_def slashed_def startswith_def endswith_def)
  have c: "startswith ''./b.md'' ''./''" by (simp add: startswith_def)
  have d: "\<not> startswith ?w ''./''" by (simp add: startswith_def)
  have e: "list_all (no_match ?w) [''https://other.org/w'']"
    by (simp add: no_match_def matches_root_def slashed_def startswith_def endswith_def)
  have r3: "?roots3 = [''https://other.org/w''] @ ''https://example.com/proj/wiki'' #
      [''https://example.com/proj'']" by simp
  have n: "normpath (path_join (dirname (filename ?page)) ''./b.md'') = ''a/b.md''"
    unfolding mk_Page_def by code_simp
  have k: "path_join ''docs'' ''Some Page.md'' = ''docs/Some Page.md''"
    by (simp add: path_join_def startswith_def endswith_def)
  have r1: "resolve_link (\<lambda>n. True) (\<lambda>h. ''URL'') (''('' @ ''../b.md'' @ '')'') ?page ?m ''docs''
      ?roots = Inr (''('' @ ''../b.md'' @ '')'')"
    by (rule resolve_link_relative_marker [where ref = "''../b.md''" and url = "\<lambda>h. ''URL''"
        and page = ?page and m = ?m and dir = "''docs''" and roots = ?roots and page' = ?page
        and rest = "[]" and netloc_ok = "\<lambda>n. True" and pre = "[]" and post = "[]" and g = "[]",
        THEN conjunct2, THEN conjunct2, THEN conjunct1, THEN mp]) (intro conjI a b)
  have r2: "resolve_link (\<lambda>n. True) (\<lambda>h. ''URL'') (''('' @ ''./b.md'' @ '')'') ?page ?m ''docs''
      ?roots =
      Inr (lookup_url (\<lambda>h. ''URL'') ?m (normpath (path_join (dirname (filename ?page)) ''./b.md''))
        ''./b.md'')"
    by (rule resolve_link_relative_marker [where ref = "''./b.md''" and url = "\<lambda>h. ''URL''"
        and page = ?page and m = ?m and dir = "''docs''" and roots = ?roots and page' = ?page
        and rest = "[]" and netloc_ok = "\<lambda>n. True" and pre = "[]" and post = "[]" and g = "[]",
        THEN conjunct1, THEN mp]) (rule c)
  have r4: "resolve_link (\<lambda>n. True) (\<lambda>h. ''URL'') (''('' @ ?w @ '')'') ?page mm ''docs'' ?roots3 =
      (case resolve_github_wiki_link (\<lambda>n. True) ?w ''https://example.com/proj/wiki'' ''docs'' of
         Inl e \<Rightarrow> Inl e
       | Inr key \<Rightarrow> Inr (lookup_url (\<lambda>h. ''URL'') mm (the key) ?w))" for mm
    by (rule resolve_link_relative_marker [where ref = ?w and url = "\<lambda>h. ''URL''"
        and page = ?page and m = mm and dir = "''docs''" and roots = ?roots3 and page' = ?page
        and rest = "[]" and netloc_ok = "\<lambda>n. True" and pre = "[''https://other.org/w'']"
        and post = "[''https://example.com/proj'']" and g = "''https://example.com/proj/wiki''",
        THEN conjunct2, THEN conjunct2, THEN conjunct2, THEN conjunct1, THEN mp, THEN conjunct2])
       (intro conjI d e r3 ex_match)
  have l2: "lookup_url (\<lambda>h. ''URL'') ?m ''a/b.md'' ''./b.md'' = ''(URL)''"
    by (simp add: lookup_url_def)
  have l3: "lookup_url (\<lambda>h. ''URL'') ?m ''docs/Some Page.md'' ?w = ''(URL)''"
    by (simp add: lookup_url_def)
  have l4: "lookup_url (\<lambda>h. ''URL'') ?m2 ''docs/Some Page.md'' ?w = ''('' @ ?w @ '')''"
    by (simp add: lookup_url_def)
  have s3: "resolve_link (\<lambda>n. True) (\<lambda>h. ''URL'') (''('' @ ?w @ '')'') ?page ?m ''docs'' ?roots3 =
      Inr ''(URL)''"
    unfolding r4 ex_key k by (simp add: l3)
  have s4: "resolve_link (\<lambda>n. True) (\<lambda>h. ''URL'') (''('' @ ?w @ '')'') ?page ?m2 ''docs'' ?roots3 =
      Inr (''('' @ ?w @ '')'')"
    unfolding r4 ex_key k by (simp add: l4)
  have t1: "resolve_link (\<lambda>n. True) (\<lambda>h. ''URL'') ''(../b.md)'' ?page ?m ''docs'' ?roots =
      Inr ''(../b.md)''" using r1 by simp
  have t2: "resolve_link (\<lambda>n. True) (\<lambda>h. ''URL'') ''(./b.md)'' ?page ?m ''docs'' ?roots =
      Inr ''(URL)''" using r2 [unfolded n l2] by simp
  have t3: "resolve_link (\<lambda>n. True) (\<lambda>h. ''URL'') ''(https://example.com/proj/wiki/Some%20Page)''
      ?page ?m ''docs'' ?roots3 = Inr ''(URL)''" using s3 by simp
  have t4: "resolve_link (\<lambda>n. True) (\<lambda>h. ''URL'') ''(https://example.com/proj/wiki/Some%20Page)''
      ?page ?m2 ''docs'' ?roots3 = Inr ''(https://example.com/proj/wiki/Some%20Page)''"
    using s4 by simp
  from a b c d e ex_match t1 t2 t3 t4 show ?thesis by (intro conjI)
qed

section \<open>Properties of the move phase\<close>

text \<open>
  The loop stops at the first page that is not the root and misses a lookup; up to there
  it issues one move for every page that is not the root.
\<close>

lemma move_loop_char:
  "move_loop m ps r =
     (if list_all (movable m) (filter not_root ps) then Inr () else Inl KeyError,
      r\<lparr>calls := calls r @ map (move_call m) (takeWhile (movable m) (filter not_root ps))\<rparr>)"
proof (induction ps arbitrary: r)
  case Nil
  then show ?case by simp
next
  case (Cons p ps)
  show ?case
  proof (cases "type p = ROOT")
    case True
    then show ?thesis by (simp add: Cons.IH move_step_def not_root_def)
  next
    case False
    then show ?thesis
      by (cases "m (parent_filename p)"; cases "m (filename p)")
         (simp_all add: Cons.IH move_step_def not_root_def movable_def move_to_def move_call_def)
  qed
qed

lemma hierarchy_root_a_b:
  "build_local_hierarchy ''root'' (Dir [(''a'', Dir [] [''b.md''])] []) =
     [mk_Page ROOT [] ''root/index.md'',
      mk_Page NODE ''root/index.md'' ''root/a/index.md'',
      mk_Page LEAVE ''root/a/index.md'' ''root/a/b.md'']"
  by code_simp

text \<open>
  Claim C3.  When the mapping has an entry for the filename and for the parent filename
  of every page that is not the root, \<open>move_pages_notion_hierarchy\<close> raises nothing and
  the calls it issues are exactly one move per page that is not the root, in the reverse
  order of the hierarchy, each moving the page mapped to the filename to the position
  \<open>first-child\<close> of the page mapped to the parent filename.  For the tree
  \<open>root > a > a/b.md\<close> (the witness) the move of \<open>a/b.md\<close> comes first and the move of
  \<open>a\<close> second; no move is issued for the root, which is reached last.
\<close>

theorem move_pages_reverse_order:
  assumes "list_all (movable m) (filter not_root h)"
  shows "move_pages_notion_hierarchy h m r =
     (Inr (), r\<lparr>calls := calls r @ map (move_call m) (filter not_root (rev h))\<rparr>)"
proof -
  from assms have all: "list_all (movable m) (filter not_root (rev h))"
    by (simp add: list_all_iff)
  then have tw: "takeWhile (movable m) (filter not_root (rev h)) = filter not_root (rev h)"
    by (simp add: list_all_iff)
  show ?thesis
    unfolding move_pages_notion_hierarchy_def move_loop_char tw using all by simp
qed

theorem move_pages_reverse_order_witness:
  "list_all
     (movable [''root/index.md'' \<mapsto> 10, ''root/a/index.md'' \<mapsto> 11, ''root/a/b.md'' \<mapsto> 12])
     (filter not_root (build_local_hierarchy ''root'' (Dir [(''a'', Dir [] [''b.md''])] []))) \<and>
   calls (snd (move_pages_notion_hierarchy
     (build_local_hierarchy ''root'' (Dir [(''a'', Dir [] [''b.md''])] []))
     [''root/index.md'' \<mapsto> 10, ''root/a/index.md'' \<mapsto> 11, ''root/a/b.md'' \<mapsto> 12]
     \<lparr>next_handle = 13, calls = [], blocks = [], import_script = []\<rparr>)) =
   [Move 12 11 ''first-child'', Move 11 10 ''first-child'']"
proof -
  let ?m = "[''root/index.md'' \<mapsto> 10, ''root/a/index.md'' \<mapsto> 11,
             ''root/a/b.md'' \<mapsto> 12 :: handle]"
  let ?h = "build_local_hierarchy ''root'' (Dir [(''a'', Dir [] [''b.md''])] [])"
  have c: "list_all (movable ?m) (filter not_root ?h)"
    unfolding hierarchy_root_a_b by (simp add: movable_def not_root_def mk_Page_def)
  show ?thesis
    using c move_pages_reverse_order [OF c,
        of "\<lparr>next_handle = 13, calls = [], blocks = [], import_script = []\<rparr>"]
    unfolding hierarchy_root_a_b by (simp add: move_call_def not_root_def mk_Page_def)
qed

text \<open>
  Claim C4.  The move phase raises \<open>KeyError\<close> exactly when the mapping lacks the
  filename or the parent filename of some page that is not the root, and it returns
  normally exactly when no such page exists.  The entry is not skipped: the calls issued
  are the moves of the pages that precede, in reverse hierarchy order, the first page
  with a missing entry, and nothing after it.
\<close>

theorem move_pages_key_error:
  "(fst (move_pages_notion_hierarchy h m r) = Inl KeyError \<longleftrightarrow>
      (\<exists>p \<in> set h. type p \<noteq> ROOT \<and> (m (parent_filename p) = None \<or> m (filename p) = None))) \<and>
   (fst (move_pages_notion_hierarchy h m r) = Inr () \<longleftrightarrow>
      (\<forall>p \<in> set h. type p \<noteq> ROOT \<longrightarrow>
         m (parent_filename p) \<noteq> None \<and> m (filename p) \<noteq> None)) \<and>
   calls (snd (move_pages_notion_hierarchy h m r)) =
     calls r @ map (move_call m) (takeWhile (movable m) (filter not_root (rev h)))"
  unfolding move_pages_notion_hierarchy_def move_loop_char
  by (auto simp: list_all_iff movable_def not_root_def)

theorem move_pages_key_error_witness:
  "(\<exists>p \<in> set [mk_Page ROOT [] ''r/index.md'', mk_Page LEAVE ''r/index.md'' ''r/b.md'',
                mk_Page LEAVE ''r/index.md'' ''r/c.md''].
      type p \<noteq> ROOT \<and>
      ([''r/index.md'' \<mapsto> 10, ''r/c.md'' \<mapsto> 12 :: handle] (parent_filename p) = None \<or>
       [''r/index.md'' \<mapsto> 10, ''r/c.md'' \<mapsto> 12 :: handle] (filename p) = None)) \<and>
   fst (move_pages_notion_hierarchy
     [mk_Page ROOT [] ''r/index.md'', mk_Page LEAVE ''r/index.md'' ''r/b.md'',
      mk_Page LEAVE ''r/index.md'' ''r/c.md'']
     [''r/index.md'' \<mapsto> 10, ''r/c.md'' \<mapsto> 12]
     \<lparr>next_handle = 13, calls = [], blocks = [], import_script = []\<rparr>) = Inl KeyError \<and>
   calls (snd (move_pages_notion_hierarchy
     [mk_Page ROOT [] ''r/index.md'', mk_Page LEAVE ''r/index.md'' ''r/b.md'',
      mk_Page LEAVE ''r/index.md'' ''r/c.md'']
     [''r/index.md'' \<mapsto> 10, ''r/c.md'' \<mapsto> 12]
     \<lparr>next_handle = 13, calls = [], blocks = [], import_script = []\<rparr>)) =
     [Move 12 10 ''first-child'']"
proof -
  let ?h = "[mk_Page ROOT [] ''r/index.md'', mk_Page LEAVE ''r/index.md'' ''r/b.md'',
      mk_Page LEAVE ''r/index.md'' ''r/c.md'']"
  let ?m = "[''r/index.md'' \<mapsto> 10, ''r/c.md'' \<mapsto> 12 :: handle]"
  let ?r = "\<lparr>next_handle = 13, calls = [], blocks = [], import_script = []\<rparr>"
  note inst = move_pages_key_error [of ?h ?m ?r]
  have ex: "\<exists>p \<in> set ?h. type p \<noteq> ROOT \<and> (?m (parent_filename p) = None \<or> ?m (filename p) = None)"
    by (simp add: mk_Page_def)
  have e: "fst (move_pages_notion_hierarchy ?h ?m ?r) = Inl KeyError"
    using ex inst [THEN conjunct1] by (rule_tac iffD2)
  have "calls (snd (move_pages_notion_hierarchy ?h ?m ?r)) =
     calls ?r @ map (move_call ?m) (takeWhile (movable ?m) (filter not_root (rev ?h)))"
    using inst [THEN conjunct2, THEN conjunct2] .
  also have "\<dots> = [Move 12 10 ''first-child'']"
    by (simp add: movable_def not_root_def move_call_def mk_Page_def)
  finally have c: "calls (snd (move_pages_notion_hierarchy ?h ?m ?r)) = [Move 12 10 ''first-child'']" .
  from ex e c show ?thesis by (intro conjI)
qed

section \<open>Properties of the content upload\<close>

lemma import_file_char:
  "import_file content h r =
     (case import_outcome r 0 of None \<Rightarrow> Inr () | Some e \<Rightarrow> Inl e,
      r\<lparr>calls := calls r @ [Import content h], import_script := tl (import_script r)\<rparr>)"
  by (cases "import_script r"; cases "hd (import_script r)")
     (simp_all add: import_file_def import_outcome_def Let_def)

lemma import_outcome_tl:
  "import_outcome (r\<lparr>calls := cs, import_script := tl (import_script r)\<rparr>) 0 = import_outcome r 1"
  by (cases "import_script r") (auto simp: import_outcome_def nth_tl)

lemma export_notion_page_char:
  "export_notion_page np page content r =
     (case import_outcome r 0 of
        None \<Rightarrow>
          (Inr (), r\<lparr>calls := calls r @ [Import content np, SetTitle np (title page)],
                     import_script := tl (import_script r)\<rparr>)
      | Some e \<Rightarrow>
          (if e = IOError
           then (case import_outcome r 1 of
                   None \<Rightarrow>
                     (Inr (),
                      r\<lparr>calls := calls r @ [Import content np, Import [] np,
                                            SetTitle np (title page)],
                        import_script := tl (tl (import_script r))\<rparr>)
                 | Some e2 \<Rightarrow>
                     (Inl e2,
                      r\<lparr>calls := calls r @ [Import content np, Import [] np],
                        import_script := tl (tl (import_script r))\<rparr>))
           else (Inl e, r\<lparr>calls := calls r @ [Import content np],
                          import_script := tl (import_script r)\<rparr>)))"
  unfolding export_notion_page_def import_file_char
  by (simp add: import_outcome_tl set_title_def split: option.splits)

text \<open>
  Claim C9, as the code has it.  In the upload of one page that is not the root and has
  an entry in the mapping: an exception raised while the scratch file is written leaves
  the loop at once, with no import call; when the write succeeds and the import raises an
  I/O error, the import is issued once more, with an empty file, and its exception, if
  any, leaves the loop with no further import; an exception of the first import that is
  not an I/O error is not retried; after the import that succeeds (the first or the
  retry) the title of the page is set to the title of the descriptor.
\<close>

theorem upload_import_retry:
  assumes "type page \<noteq> ROOT" and "m (filename page) = Some np"
    and "page_content netloc_ok env url m dir roots page = Inr content"
  shows
   "(write_error env content = Some e \<longrightarrow>
       update_link_step netloc_ok env url m dir roots page r = (Inl e, r)) \<and>
    (write_error env content = None \<and> import_outcome r 0 = None \<longrightarrow>
       fst (update_link_step netloc_ok env url m dir roots page r) = Inr () \<and>
       calls (snd (update_link_step netloc_ok env url m dir roots page r)) =
         calls r @ [Import content np, SetTitle np (title page)]) \<and>
    (write_error env content = None \<and> import_outcome r 0 = Some IOError \<and>
     import_outcome r 1 = None \<longrightarrow>
       fst (update_link_step netloc_ok env url m dir roots page r) = Inr () \<and>
       calls (snd (update_link_step netloc_ok env url m dir roots page r)) =
         calls r @ [Import content np, Import [] np, SetTitle np (title page)]) \<and>
    (write_error env content = None \<and> import_outcome r 0 = Some IOError \<and>
     import_outcome r 1 = Some e2 \<longrightarrow>
       fst (update_link_step netloc_ok env url m dir roots page r) = Inl e2 \<and>
       calls (snd (update_link_step netloc_ok env url m dir roots page r)) =
         calls r @ [Import content np, Import [] np]) \<and>
    (write_error env content = None \<and> import_outcome r 0 = Some e \<and> e \<noteq> IOError \<longrightarrow>
       fst (update_link_step netloc_ok env url m dir roots page r) = Inl e \<and>
       calls (snd (update_link_step netloc_ok env url m dir roots page r)) =
         calls r @ [Import content np])"
  using assms
  by (simp add: update_link_step_def export_notion_page_char)

lemma example_content:
  "page_content netloc_ok (example_env w) example_url example_mapping ''.'' [] example_leave =
     Inr ''see (https://www.notion.so/b)''"
  by (simp add: page_content_def example_env_def example_leave_def mk_Page_def paren_match_def
      resolve_link_def startswith_def lookup_url_def example_mapping_def example_url_def
      path_join_def endswith_def dirname_def path_head_def not_sep_def rstrip_sep_def is_sep_def
      normpath_def normpath_step_def)

text \<open>
  The claim as stated fails where the write to the scratch file raises the I/O error: no
  import is issued, neither of the content nor of an empty file, and the run ends with
  the error.
\<close>

theorem upload_write_error_counterexample:
  "page_content example_netloc_ok (example_env write_raises_IOError) example_url
     example_mapping ''.'' [] example_leave = Inr ''see (https://www.notion.so/b)'' \<and>
   write_error (example_env write_raises_IOError) ''see (https://www.notion.so/b)'' =
     Some IOError \<and>
   update_link_notion_hierarchy example_netloc_ok (example_env write_raises_IOError)
     example_url [example_leave] example_mapping ''.'' [] (example_remote []) =
     (Inl IOError, example_remote [])"
  by (simp add: update_link_notion_hierarchy_def update_link_step_def example_content)
     (simp add: example_env_def write_raises_IOError_def example_leave_def mk_Page_def)

theorem upload_import_retry_witness:
  "type example_leave \<noteq> ROOT \<and> example_mapping (filename example_leave) = Some 5 \<and>
   write_error (example_env no_write_error) ''see (https://www.notion.so/b)'' = None \<and>
   import_outcome (example_remote [Some IOError]) 0 = Some IOError \<and>
   import_outcome (example_remote [Some IOError]) 1 = None \<and>
   import_outcome (example_remote [Some IOError, Some IOError]) 1 = Some IOError \<and>
   calls (snd (update_link_step example_netloc_ok (example_env no_write_error) example_url
      example_mapping ''.'' []
      example_leave (example_remote [Some IOError]))) =
     [Import ''see (https://www.notion.so/b)'' 5, Import [] 5, SetTitle 5 ''c.md''] \<and>
   fst (update_link_step example_netloc_ok (example_env no_write_error) example_url
      example_mapping ''.'' []
      example_leave (example_remote [Some IOError, Some IOError])) = Inl IOError \<and>
   calls (snd (update_link_step example_netloc_ok (example_env no_write_error) example_url
      example_mapping ''.'' []
      example_leave (example_remote [Some IOError, Some IOError]))) =
     [Import ''see (https://www.notion.so/b)'' 5, Import [] 5]"
proof -
  let ?env = "example_env no_write_error"
  let ?c = "''see (https://www.notion.so/b)''"
  have a: "type example_leave \<noteq> ROOT" by (simp add: example_leave_def mk_Page_def)
  have b: "example_mapping (filename example_leave) = Some 5"
    by (simp add: example_leave_def mk_Page_def example_mapping_def)
  have c: "page_content example_netloc_ok ?env example_url example_mapping ''.'' []
      example_leave = Inr ?c"
    by (simp only: example_content)
  have w: "write_error ?env ?c = None" by (simp add: example_env_def no_write_error_def)
  have o1: "import_outcome (example_remote [Some IOError]) 0 = Some IOError"
    and o2: "import_outcome (example_remote [Some IOError]) 1 = None"
    and o3: "import_outcome (example_remote [Some IOError, Some IOError]) 0 = Some IOError"
    and o4: "import_outcome (example_remote [Some IOError, Some IOError]) 1 = Some IOError"
    by (simp_all add: import_outcome_def example_remote_def)
  have t: "title example_leave = ''c.md''"
    by (simp add: title_def is_index_def example_leave_def mk_Page_def endswith_def basename_def
        not_sep_def)
  note i1 = upload_import_retry [OF a b c, where r = "example_remote [Some IOError]" and e = IOError
      and ?e2.0 = IOError]
  note i2 = upload_import_retry [OF a b c, where r = "example_remote [Some IOError, Some IOError]"
      and e = IOError and ?e2.0 = IOError]
  have r1: "calls (snd (update_link_step example_netloc_ok ?env example_url example_mapping ''.'' []
      example_leave
      (example_remote [Some IOError]))) = [Import ?c 5, Import [] 5, SetTitle 5 ''c.md'']"
    using i1 w o1 o2 t by (simp add: example_remote_def)
  have r2: "fst (update_link_step example_netloc_ok ?env example_url example_mapping ''.'' []
      example_leave
      (example_remote [Some IOError, Some IOError])) = Inl IOError \<and>
     calls (snd (update_link_step example_netloc_ok ?env example_url example_mapping ''.'' []
      example_leave
      (example_remote [Some IOError, Some IOError]))) = [Import ?c 5, Import [] 5]"
    using i2 w o3 o4 by (simp add: example_remote_def)
  from a b w o1 o2 o4 r1 r2 show ?thesis by (intro conjI) simp_all
qed

text \<open>
  An exception raised while the references of the content are resolved (the \<open>ValueError\<close>
  of \<open>urlparse\<close>) leaves the loop at once, before the scratch file is written and with no
  import call.
\<close>

lemma upload_content_error:
  "type page \<noteq> ROOT \<Longrightarrow> page_content netloc_ok env url m dir roots page = Inl e \<Longrightarrow>
   update_link_step netloc_ok env url m dir roots page r = (Inl e, r)"
  by (simp add: update_link_step_def)

section \<open>Properties of the wiki links and of the rewriting pass\<close>

lemma str_replace_absent:
  "old \<noteq> [] \<Longrightarrow> \<not> occurs_in old s \<Longrightarrow> str_replace s old new = s"
  by (induction s) auto

lemma str_replace_empty: "str_replace s [] [] = s"
  by (induction s) auto

lemma str_replace_prefix:
  "old \<noteq> [] \<Longrightarrow> str_replace (old @ rest) old new = new @ str_replace rest old new"
  by (cases old) (simp_all add: startswith_def)

text \<open>
  Claim C6, as the code has it.  The wiki root, with a slash appended when it does not end
  in one, is compared with the reference as it is written: when it is not a prefix of
  the reference there is no candidate key, whatever the decoded paths are.  When it is a
  prefix, \<open>urlparse\<close> gives a path for the reference and for the root, and the decoded path
  of the reference is the decoded path of the root followed by a remainder in which the
  decoded path of the root does not occur again, the candidate key is the remainder with
  \<open>.md\<close> appended, joined onto the base directory.  For the wiki root
  \<open>https://example.com/proj/wiki\<close> and the reference
  \<open>https://example.com/proj/wiki/Some%20Page\<close> the key is \<open>Some Page.md\<close> joined onto
  the base directory, which is \<open>dir/Some Page.md\<close> for a directory \<open>dir\<close> that is not empty
  and does not end in a slash.
\<close>

theorem wiki_link_key:
  "(\<not> matches_root ref root \<longrightarrow>
      resolve_github_wiki_link netloc_ok ref root dir = Inr None) \<and>
   (matches_root ref root \<and>
    urlparse_path netloc_ok ref = Inr ref_path \<and>
    urlparse_path netloc_ok (slashed root) = Inr root_path \<and>
    unquote ref_path = unquote root_path @ rest \<and>
    (unquote root_path = [] \<or> \<not> occurs_in (unquote root_path) rest) \<longrightarrow>
      resolve_github_wiki_link netloc_ok ref root dir =
        Inr (Some (path_join dir (rest @ ''.md'')))) \<and>
   resolve_github_wiki_link netloc_ok ''https://example.com/proj/wiki/Some%20Page''
     ''https://example.com/proj/wiki'' dir = Inr (Some (path_join dir ''Some Page.md'')) \<and>
   (dir \<noteq> [] \<and> \<not> endswith dir ''/'' \<longrightarrow>
      path_join dir ''Some Page.md'' = dir @ ''/Some Page.md'')"
proof (intro conjI impI)
  assume "\<not> matches_root ref root"
  then show "resolve_github_wiki_link netloc_ok ref root dir = Inr None"
    unfolding matches_root_def by (rule wiki_None)
next
  assume h: "matches_root ref root \<and>
    urlparse_path netloc_ok ref = Inr ref_path \<and>
    urlparse_path netloc_ok (slashed root) = Inr root_path \<and>
    unquote ref_path = unquote root_path @ rest \<and>
    (unquote root_path = [] \<or> \<not> occurs_in (unquote root_path) rest)"
  then have sw: "startswith ref (slashed root)"
    and p1: "urlparse_path netloc_ok ref = Inr ref_path"
    and p2: "urlparse_path netloc_ok (slashed root) = Inr root_path"
    and eq: "unquote ref_path = unquote root_path @ rest"
    and oc: "unquote root_path = [] \<or> \<not> occurs_in (unquote root_path) rest"
    unfolding matches_root_def by blast+
  have rep: "str_replace (unquote root_path @ rest) (unquote root_path) [] = rest"
  proof (cases "unquote root_path = []")
    case True
    then show ?thesis by (simp add: str_replace_empty)
  next
    case False
    with oc have "\<not> occurs_in (unquote root_path) rest" by blast
    with False show ?thesis by (simp add: str_replace_prefix str_replace_absent)
  qed
  show "resolve_github_wiki_link netloc_ok ref root dir =
      Inr (Some (path_join dir (rest @ ''.md'')))"
    unfolding wiki_Some [OF sw] p1 p2 by (simp only: sum.case eq rep)
next
  show "resolve_github_wiki_link netloc_ok ''https://example.com/proj/wiki/Some%20Page''
     ''https://example.com/proj/wiki'' dir = Inr (Some (path_join dir ''Some Page.md''))"
    by (rule ex_key)
next
  assume "dir \<noteq> [] \<and> \<not> endswith dir ''/''"
  then show "path_join dir ''Some Page.md'' = dir @ ''/Some Page.md''"
    by (simp add: path_join_def startswith_def)
qed

lemma ex_paths_w:
  "urlparse_path netloc_ok ''https://example.com/w/a/w/b'' = Inr ''/w/a/w/b''"
  "urlparse_path netloc_ok ''https://example.com/w/'' = Inr ''/w/''"
  "urlparse_path netloc_ok ''https://example.com/w'' = Inr ''/w''"
  by code_simp+

lemma ex_replace_w: "str_replace ''/w/a/w/b'' ''/w/'' [] = ''ab''"
  by code_simp

lemma ex_key_w:
  "resolve_github_wiki_link netloc_ok ''https://example.com/w/a/w/b'' ''https://example.com/w''
     ''docs'' = Inr (Some ''docs/ab.md'')"
proof -
  have r: "slashed ''https://example.com/w'' = ''https://example.com/w/''"
    by (simp add: slashed_def endswith_def)
  have sw: "startswith ''https://example.com/w/a/w/b'' (slashed ''https://example.com/w'')"
    unfolding r by (simp add: startswith_def)
  have u: "unquote ''/w/a/w/b'' = ''/w/a/w/b''" "unquote ''/w/'' = ''/w/''"
    by (simp_all add: unquote_def)
  have "resolve_github_wiki_link netloc_ok ''https://example.com/w/a/w/b''
      ''https://example.com/w'' ''docs'' =
      Inr (Some (path_join ''docs'' (str_replace ''/w/a/w/b'' ''/w/'' [] @ ''.md'')))"
    unfolding wiki_Some [OF sw] r ex_paths_w by (simp only: sum.case u)
  also have "path_join ''docs'' (str_replace ''/w/a/w/b'' ''/w/'' [] @ ''.md'') = ''docs/ab.md''"
    unfolding ex_replace_w by (simp add: path_join_def startswith_def endswith_def)
  finally show ?thesis .
qed

text \<open>
  The claim as stated fails in two ways.  For a reference to another host, the decoded
  path starts with the decoded path of the wiki root, and there is no candidate key.  For
  a reference whose decoded path contains the decoded path of the wiki root (with its
  slash) a second time, every occurrence is removed, not the prefix only: the key is
  \<open>docs/ab.md\<close> where stripping the prefix gives \<open>docs/a/w/b.md\<close>.
\<close>

theorem wiki_link_other_host_counterexample:
  "\<not> startswith ''https://other.org/proj/wiki/Some%20Page'' ''./'' \<and>
   urlparse_path example_netloc_ok ''https://other.org/proj/wiki/Some%20Page'' =
     Inr ''/proj/wiki/Some%20Page'' \<and>
   urlparse_path example_netloc_ok ''https://example.com/proj/wiki'' = Inr ''/proj/wiki'' \<and>
   startswith (unquote ''/proj/wiki/Some%20Page'') (unquote ''/proj/wiki'') \<and>
   resolve_github_wiki_link example_netloc_ok ''https://other.org/proj/wiki/Some%20Page''
     ''https://example.com/proj/wiki'' ''docs'' = Inr None \<and>
   \<not> startswith ''https://example.com/w/a/w/b'' ''./'' \<and>
   urlparse_path example_netloc_ok ''https://example.com/w/a/w/b'' = Inr ''/w/a/w/b'' \<and>
   urlparse_path example_netloc_ok ''https://example.com/w/'' = Inr ''/w/'' \<and>
   startswith (unquote ''/w/a/w/b'') (unquote ''/w/'') \<and>
   path_join ''docs'' (drop (length (unquote ''/w/'')) (unquote ''/w/a/w/b'') @ ''.md'') =
     ''docs/a/w/b.md'' \<and>
   resolve_github_wiki_link example_netloc_ok ''https://example.com/w/a/w/b''
     ''https://example.com/w'' ''docs'' = Inr (Some ''docs/ab.md'')"
proof -
  have n: "\<not> startswith ''https://other.org/proj/wiki/Some%20Page''
      (slashed ''https://example.com/proj/wiki'')"
    unfolding ex_root by (simp add: startswith_def)
  have a: "startswith (unquote ''/proj/wiki/Some%20Page'') (unquote ''/proj/wiki'')"
    unfolding ex_unquote by (simp add: startswith_def)
  have u: "unquote ''/w/a/w/b'' = ''/w/a/w/b''" "unquote ''/w/'' = ''/w/''"
    by (simp_all add: unquote_def)
  have b: "startswith (unquote ''/w/a/w/b'') (unquote ''/w/'')"
    unfolding u by (simp add: startswith_def)
  have c: "path_join ''docs'' (drop (length (unquote ''/w/'')) (unquote ''/w/a/w/b'') @ ''.md'') =
     ''docs/a/w/b.md''"
    unfolding u by (simp add: path_join_def startswith_def endswith_def)
  have s1: "\<not> startswith ''https://other.org/proj/wiki/Some%20Page'' ''./''"
    and s2: "\<not> startswith ''https://example.com/w/a/w/b'' ''./''"
    by (simp_all add: startswith_def)
  from s1 ex_paths(3) [of example_netloc_ok] ex_paths(4) [of example_netloc_ok] a
    wiki_None [OF n, of example_netloc_ok "''docs''"] s2 ex_paths_w(1) [of example_netloc_ok]
    ex_paths_w(2) [of example_netloc_ok] b c ex_key_w [of example_netloc_ok]
  show ?thesis by (intro conjI)
qed

text \<open>
  A wiki root whose host has an opening bracket and no closing one: \<open>urlparse\<close> raises
  \<open>ValueError\<close>, and so does \<open>_resolve_github_wiki_link\<close> for a reference that starts with
  the root.
\<close>

lemma wiki_link_value_error:
  "resolve_github_wiki_link netloc_ok ''https://[::1/proj/wiki/Page'' ''https://[::1/proj/wiki''
     ''docs'' = Inl ValueError"
proof -
  have r: "slashed ''https://[::1/proj/wiki'' = ''https://[::1/proj/wiki/''"
    by (simp add: slashed_def endswith_def)
  have sw: "startswith ''https://[::1/proj/wiki/Page'' (slashed ''https://[::1/proj/wiki'')"
    unfolding r by (simp add: startswith_def)
  have p: "urlparse_path netloc_ok ''https://[::1/proj/wiki/Page'' = Inl ValueError"
    by code_simp
  show ?thesis unfolding wiki_Some [OF sw] p by simp
qed

text \<open>
  A reference with a percent escape that is not UTF-8: the byte \<open>E9\<close> is decoded as the
  replacement character \<open>U+FFFD\<close>, and the key holds its three UTF-8 bytes.
\<close>

lemma wiki_link_invalid_utf8:
  "resolve_github_wiki_link netloc_ok ''https://example.com/w/caf%e9'' ''https://example.com/w''
     ''docs'' = Inr (Some (''docs/caf'' @ [CHR 0xEF, CHR 0xBF, CHR 0xBD] @ ''.md''))"
proof -
  have r: "slashed ''https://example.com/w'' = ''https://example.com/w/''"
    by (simp add: slashed_def endswith_def)
  have sw: "startswith ''https://example.com/w/caf%e9'' (slashed ''https://example.com/w'')"
    unfolding r by (simp add: startswith_def)
  have p: "urlparse_path netloc_ok ''https://example.com/w/caf%e9'' = Inr ''/w/caf%e9''"
    by code_simp
  have u: "unquote ''/w/caf%e9'' = ''/w/caf'' @ [CHR 0xEF, CHR 0xBF, CHR 0xBD]"
    "unquote ''/w/'' = ''/w/''"
    by code_simp+
  have k: "path_join ''docs''
      (str_replace (''/w/caf'' @ [CHR 0xEF, CHR 0xBF, CHR 0xBD]) ''/w/'' [] @ ''.md'') =
      ''docs/caf'' @ [CHR 0xEF, CHR 0xBF, CHR 0xBD] @ ''.md''"
    by code_simp
  have "resolve_github_wiki_link netloc_ok ''https://example.com/w/caf%e9''
      ''https://example.com/w'' ''docs'' =
      Inr (Some (path_join ''docs''
        (str_replace (''/w/caf'' @ [CHR 0xEF, CHR 0xBF, CHR 0xBD]) ''/w/'' [] @ ''.md'')))"
    unfolding wiki_Some [OF sw] r p ex_paths_w by (simp only: sum.case u)
  then show ?thesis unfolding k .
qed

theorem wiki_link_key_witness:
  "\<not> matches_root ''https://example.com/other/Page'' ''https://example.com/proj/wiki'' \<and>
   resolve_github_wiki_link example_netloc_ok ''https://example.com/other/Page''
     ''https://example.com/proj/wiki'' ''docs'' = Inr None \<and>
   matches_root ''https://example.com/proj/wiki/Some%20Page'' ''https://example.com/proj/wiki'' \<and>
   urlparse_path example_netloc_ok ''https://example.com/proj/wiki/Some%20Page'' =
     Inr ''/proj/wiki/Some%20Page'' \<and>
   urlparse_path example_netloc_ok (slashed ''https://example.com/proj/wiki'') =
     Inr ''/proj/wiki/'' \<and>
   unquote ''/proj/wiki/Some%20Page'' = unquote ''/proj/wiki/'' @ ''Some Page'' \<and>
   \<not> occurs_in (unquote ''/proj/wiki/'') ''Some Page'' \<and>
   ''docs'' \<noteq> [] \<and> \<not> endswith ''docs'' ''/'' \<and>
   resolve_github_wiki_link example_netloc_ok ''https://example.com/proj/wiki/Some%20Page''
     ''https://example.com/proj/wiki'' ''docs'' = Inr (Some ''docs/Some Page.md'')"
proof -
  let ?ref = "''https://example.com/proj/wiki/Some%20Page''"
  let ?root = "''https://example.com/proj/wiki''"
  let ?other = "''https://example.com/other/Page''"
  note inst = wiki_link_key [where netloc_ok = example_netloc_ok and ref = ?ref and root = ?root
      and dir = "''docs''" and ref_path = "''/proj/wiki/Some%20Page''"
      and root_path = "''/proj/wiki/''" and rest = "''Some Page''"]
  note inst_other = wiki_link_key [where netloc_ok = example_netloc_ok and ref = ?other
      and root = ?root and dir = "''docs''" and ref_path = "[]" and root_path = "[]"
      and rest = "[]"]
  have a: "\<not> matches_root ?other ?root"
    unfolding matches_root_def ex_root by (simp add: startswith_def)
  have b: "resolve_github_wiki_link example_netloc_ok ?other ?root ''docs'' = Inr None"
    by (rule inst_other [THEN conjunct1, THEN mp]) (rule a)
  have c: "urlparse_path example_netloc_ok (slashed ?root) = Inr ''/proj/wiki/''"
    unfolding ex_root by (rule ex_paths)
  have d: "unquote ''/proj/wiki/Some%20Page'' = unquote ''/proj/wiki/'' @ ''Some Page''"
    unfolding ex_unquote by simp
  have e: "\<not> occurs_in (unquote ''/proj/wiki/'') ''Some Page''"
    unfolding ex_unquote by (simp add: startswith_def)
  have f: "''docs'' \<noteq> []" "\<not> endswith ''docs'' ''/''" by (simp_all add: endswith_def)
  have g: "resolve_github_wiki_link example_netloc_ok ?ref ?root ''docs'' =
      Inr (Some (path_join ''docs'' (''Some Page'' @ ''.md'')))"
    by (rule inst [THEN conjunct2, THEN conjunct1, THEN mp])
       (intro conjI ex_match ex_paths c d disjI2 e)
  have j: "path_join ''docs'' ''Some Page.md'' = ''docs'' @ ''/Some Page.md''"
    by (rule inst [THEN conjunct2, THEN conjunct2, THEN conjunct2, THEN mp]) (intro conjI f)
  have k: "resolve_github_wiki_link example_netloc_ok ?ref ?root ''docs'' =
      Inr (Some ''docs/Some Page.md'')"
    using g j by simp
  from a b ex_match ex_paths(1) [of example_netloc_ok] c d e f k show ?thesis by (intro conjI)
qed

lemma paren_match_b: "paren_match ''./b.md)'' = ''./b.md)''" by code_simp
lemma paren_match_index: "paren_match ''./index.md)'' = ''./index.md)''" by code_simp
lemma paren_match_both:
  "paren_match ''./b.md) and (./index.md)'' = ''./b.md) and (./index.md)''" by code_simp
lemma normpath_b: "normpath (path_join (dirname ''a/d.md'') ''./b.md'') = ''a/b.md''"
  by code_simp
lemma normpath_index:
  "normpath (path_join (dirname ''a/e.md'') ''./index.md'') = ''a/index.md''" by code_simp
lemma normpath_both:
  "normpath (path_join (dirname ''a/c.md'') ''./b.md) and (./index.md'') =
     ''a/b.md) and (./index.md''" by code_simp

text \<open>
  Claim C7 at a line with two references.  Alone in a document, \<open>(./b.md)\<close> and
  \<open>(./index.md)\<close> are each replaced by the URL of the mapped page.  On one line, the
  regular expression matches once, from the first opening to the last closing
  parenthesis, the text in between is looked up as one path, and the line is left as it
  was: neither reference is resolved.
\<close>

theorem two_references_on_one_line:
  "page_content example_netloc_ok two_links_env example_url example_mapping ''.'' []
     (mk_Page LEAVE ''a/index.md'' ''a/d.md'') = Inr ''(https://www.notion.so/b)'' \<and>
   page_content example_netloc_ok two_links_env example_url example_mapping ''.'' []
     (mk_Page LEAVE ''a/index.md'' ''a/e.md'') = Inr ''(https://www.notion.so/a)'' \<and>
   page_content example_netloc_ok two_links_env example_url example_mapping ''.'' []
     (mk_Page LEAVE ''a/index.md'' ''a/c.md'') = Inr ''(./b.md) and (./index.md)''"
  by (simp add: page_content_def two_links_env_def mk_Page_def paren_match_b paren_match_index
      paren_match_both normpath_b normpath_index normpath_both
      resolve_link_def lookup_url_def example_mapping_def example_url_def startswith_def)

section \<open>Properties of the hierarchy builder\<close>

lemma count_type_append [simp]: "count_type k (xs @ ys) = count_type k xs + count_type k ys"
  by (simp add: count_type_def)

lemma count_type_leaves:
  "count_type k (map (\<lambda>f. mk_Page LEAVE node (g f)) fs) = (if k = LEAVE then length fs else 0)"
  by (induction fs) (auto simp: count_type_def mk_Page_def)

lemma count_type_step:
  "count_type k (hierarchy_step (i, d, ds, fs)) =
     (if k = LEAVE then length (filter is_leave_name fs)
      else if k = ROOT then (if i = 0 then 1 else 0)
      else (if i = 0 then 0 else 1))"
  by (cases k) (simp_all add: hierarchy_step_def Let_def count_type_def mk_Page_def
      count_type_leaves [unfolded count_type_def])

lemma count_type_steps:
  "count_type k (concat (map hierarchy_step (enumerate n w))) =
     (if k = LEAVE then sum_list (map (\<lambda>(d, ds, fs). length (filter is_leave_name fs)) w)
      else if k = ROOT then (if n = 0 \<and> w \<noteq> [] then 1 else 0)
      else (if n = 0 \<and> w \<noteq> [] then length w - 1 else length w))"
proof (induction w arbitrary: n)
  case Nil
  then show ?case by (simp add: count_type_def)
next
  case (Cons x w)
  obtain d ds fs where x: "x = (d, ds, fs)" by (cases x)
  show ?case
    by (simp add: x Cons.IH count_type_step)
qed

lemma length_os_walk: "length (os_walk d t) = dirs_visited t"
proof (induction d t rule: os_walk.induct)
  case (1 d subs fs)
  have "sum_list (map (\<lambda>x. length (case x of (name, t) \<Rightarrow> os_walk (path_join d name) t))
          (remove_git subs)) =
        sum_list (map (\<lambda>(name, t). dirs_visited t) (remove_git subs))"
    using 1 by (intro arg_cong [where f = sum_list] map_cong) auto
  then show ?case by (simp add: length_concat comp_def)
qed

lemma sum_list_map_concat:
  "sum_list (map f (concat xss)) = sum_list (map (\<lambda>xs. sum_list (map f xs)) xss)"
  by (induction xss) auto

lemma leaves_os_walk:
  "sum_list (map (\<lambda>(d, ds, fs). length (filter is_leave_name fs)) (os_walk d t)) = leave_files t"
proof (induction d t rule: os_walk.induct)
  case (1 d subs fs)
  have "sum_list (map (\<lambda>x. sum_list (map (\<lambda>(d, ds, fs). length (filter is_leave_name fs))
            (case x of (name, t) \<Rightarrow> os_walk (path_join d name) t))) (remove_git subs)) =
        sum_list (map (\<lambda>(name, t). leave_files t) (remove_git subs))"
    using 1 by (intro arg_cong [where f = sum_list] map_cong) auto
  then show ?case by (simp add: sum_list_map_concat comp_def)
qed

lemma os_walk_not_Nil: "os_walk d t \<noteq> []"
  by (cases t) simp

lemma hierarchy_leaves: "count_type LEAVE (build_local_hierarchy path t) = leave_files t"
  by (simp add: build_local_hierarchy_def count_type_steps leaves_os_walk)

text \<open>
  In a tree without a directory named \<open>.git\<close> the walk visits every directory, and the
  files it sees are the files of the whole tree.
\<close>

lemma remove_git_no_git: "no_git_subs subs \<Longrightarrow> remove_git subs = subs"
  by (induction subs rule: remove_git.induct) auto

lemma no_git_member: "no_git_subs subs \<Longrightarrow> (n, t) \<in> set subs \<Longrightarrow> no_git t"
  by (induction subs) auto

lemma leave_files_no_git: "no_git t \<Longrightarrow> leave_files t = all_leave_files t"
proof (induction t rule: leave_files.induct)
  case (1 subs fs)
  from "1.prems" have ng: "no_git_subs subs" by simp
  then have rg: "remove_git subs = subs" by (rule remove_git_no_git)
  have "sum_list (map (\<lambda>(name, t). leave_files t) subs) =
        sum_list (map (\<lambda>(name, t). all_leave_files t) subs)"
  proof (intro arg_cong [where f = sum_list] map_cong refl)
    fix x assume x: "x \<in> set subs"
    obtain n t where nt: "x = (n, t)" by (cases x)
    from x nt ng have g: "no_git t" using no_git_member by blast
    from x nt have "(n, t) \<in> set (remove_git subs)" by (simp add: rg)
    then have "leave_files t = all_leave_files t"
      using "1.IH" [of "(n, t)" n t] g by blast
    then show
      "(case x of (name, t) \<Rightarrow> leave_files t) = (case x of (name, t) \<Rightarrow> all_leave_files t)"
      by (simp add: nt)
  qed
  then show ?case by (simp add: rg)
qed

text \<open>
  Claim C8, as the code has it.  For every path and directory tree,
  \<open>build_local_hierarchy\<close> produces exactly one Root; the Nodes and the Root together are
  as many as the directories the walk visits, the root directory included; and the Leaves
  are as many as the files whose name ends in \<open>.md\<close> and is not \<open>index.md\<close> in the
  directories the walk visits, that is, outside every directory named \<open>.git\<close>, which the
  walk does not enter.  In a tree without a directory named \<open>.git\<close>, the Leaves are as
  many as the files of the whole tree whose name ends in \<open>.md\<close> and is not \<open>index.md\<close>.
\<close>

theorem hierarchy_counts:
  "count_type ROOT (build_local_hierarchy path t) = 1 \<and>
   count_type NODE (build_local_hierarchy path t) + count_type ROOT (build_local_hierarchy path t) =
     length (os_walk path t) \<and>
   length (os_walk path t) = dirs_visited t \<and>
   count_type LEAVE (build_local_hierarchy path t) = leave_files t \<and>
   (no_git t \<longrightarrow> count_type LEAVE (build_local_hierarchy path t) = all_leave_files t)"
proof -
  have "0 < length (os_walk path t)" using os_walk_not_Nil [of path t] by simp
  then have "count_type ROOT (build_local_hierarchy path t) = 1 \<and>
   count_type NODE (build_local_hierarchy path t) + count_type ROOT (build_local_hierarchy path t) =
     length (os_walk path t) \<and>
   length (os_walk path t) = dirs_visited t \<and>
   count_type LEAVE (build_local_hierarchy path t) = leave_files t"
    by (simp add: build_local_hierarchy_def count_type_steps os_walk_not_Nil leaves_os_walk
        length_os_walk)
  moreover have "no_git t \<longrightarrow>
      count_type LEAVE (build_local_hierarchy path t) = all_leave_files t"
    by (simp add: hierarchy_leaves leave_files_no_git)
  ultimately show ?thesis by blast
qed

theorem hierarchy_counts_witness:
  "count_type NODE
     (build_local_hierarchy ''docs''
        (Dir [(''a'', Dir [] [''b.md'', ''index.md'', ''c.txt'']),
              (''.git'', Dir [(''refs'', Dir [] [''x.md''])] [''HEAD''])] [''r.md''])) = 1 \<and>
   dirs_visited
     (Dir [(''a'', Dir [] [''b.md'', ''index.md'', ''c.txt'']),
           (''.git'', Dir [(''refs'', Dir [] [''x.md''])] [''HEAD''])] [''r.md'']) = 2 \<and>
   count_type LEAVE
     (build_local_hierarchy ''docs''
        (Dir [(''a'', Dir [] [''b.md'', ''index.md'', ''c.txt'']),
              (''.git'', Dir [(''refs'', Dir [] [''x.md''])] [''HEAD''])] [''r.md''])) = 2 \<and>
   no_git (Dir [(''a'', Dir [(''e'', Dir [] [''x.md''])] [''b.md'', ''index.md'', ''c.txt''])]
     [''r.md'']) \<and>
   all_leave_files
     (Dir [(''a'', Dir [(''e'', Dir [] [''x.md''])] [''b.md'', ''index.md'', ''c.txt''])]
        [''r.md'']) = 3 \<and>
   count_type LEAVE
     (build_local_hierarchy ''docs''
        (Dir [(''a'', Dir [(''e'', Dir [] [''x.md''])] [''b.md'', ''index.md'', ''c.txt''])]
           [''r.md''])) = 3"
proof -
  let ?t = "Dir [(''a'', Dir [] [''b.md'', ''index.md'', ''c.txt'']),
                 (''.git'', Dir [(''refs'', Dir [] [''x.md''])] [''HEAD''])] [''r.md'']"
  let ?u = "Dir [(''a'', Dir [(''e'', Dir [] [''x.md''])] [''b.md'', ''index.md'', ''c.txt''])]
              [''r.md'']"
  have d: "dirs_visited ?t = 2" by simp
  have l: "leave_files ?t = 2" by (simp add: is_leave_name_def endswith_def)
  have g: "no_git ?u" by simp
  have a: "all_leave_files ?u = 3" by (simp add: is_leave_name_def endswith_def)
  have u: "count_type LEAVE (build_local_hierarchy ''docs'' ?u) = all_leave_files ?u"
    using hierarchy_counts [of "''docs''" ?u] g by blast
  have t: "count_type NODE (build_local_hierarchy ''docs'' ?t) = 1 \<and>
      count_type LEAVE (build_local_hierarchy ''docs'' ?t) = 2"
    using hierarchy_counts [of "''docs''" ?t] d l by simp
  from t d g a u show ?thesis by simp
qed

text \<open>
  The claim as stated fails for a tree with a Markdown file below a directory \<open>.git\<close>:
  the tree has three files whose name ends in \<open>.md\<close> and is not \<open>index.md\<close>, and the
  hierarchy has two Leaves.
\<close>

theorem hierarchy_counts_git_counterexample:
  "all_leave_files
     (Dir [(''a'', Dir [] [''b.md'', ''index.md'', ''c.txt'']),
           (''.git'', Dir [(''refs'', Dir [] [''x.md''])] [''HEAD''])] [''r.md'']) = 3 \<and>
   count_type LEAVE
     (build_local_hierarchy ''docs''
        (Dir [(''a'', Dir [] [''b.md'', ''index.md'', ''c.txt'']),
              (''.git'', Dir [(''refs'', Dir [] [''x.md''])] [''HEAD''])] [''r.md''])) = 2"
proof -
  let ?t = "Dir [(''a'', Dir [] [''b.md'', ''index.md'', ''c.txt'']),
                 (''.git'', Dir [(''refs'', Dir [] [''x.md''])] [''HEAD''])] [''r.md'']"
  have a: "all_leave_files ?t = 3" by (simp add: is_leave_name_def endswith_def)
  have "leave_files ?t = 2" by (simp add: is_leave_name_def endswith_def)
  then have b: "count_type LEAVE (build_local_hierarchy ''docs'' ?t) = 2"
    by (simp only: hierarchy_leaves)
  from a b show ?thesis by (rule conjI)
qed

section \<open>Properties of the creation phase\<close>

lemma create_loop_snoc:
  "create_loop url flat (hs @ [p]) m root r =
     (case create_loop url flat hs m root r of
        (Inl e, r') \<Rightarrow> (Inl e, r')
      | (Inr (m', root'), r') \<Rightarrow> create_step url flat p m' root' r')"
proof (induction hs arbitrary: m root r)
  case Nil
  show ?case by (simp split: prod.splits sum.splits)
next
  case (Cons a hs)
  show ?case
    by (simp add: Cons.IH split: prod.splits sum.splits)
qed

lemma create_step_char:
  "create_step url flat p m root r =
     (if type p = ROOT then
        (case get_notion_page r url of None \<Rightarrow> (Inl AttributeError, r)
         | Some ph \<Rightarrow> created p ph m root r)
      else if flat then
        (case root of None \<Rightarrow> (Inl AttributeError, r) | Some ph \<Rightarrow> created p ph m root r)
      else
        (case m (parent_filename p) of None \<Rightarrow> (Inl KeyError, r)
         | Some ph \<Rightarrow> created p ph m root r))"
  by (simp add: create_step_def create_notion_page_def created_def split: option.splits)

lemma create_loop_snoc_Inr:
  assumes "create_loop url flat (hs @ [p]) m0 root0 r0 = (Inr (m', root'), r')"
  obtains m root r ph where
    "create_loop url flat hs m0 root0 r0 = (Inr (m, root), r)"
    "created p ph m root r = (Inr (m', root'), r')"
    "if type p = ROOT then get_notion_page r url = Some ph
     else if flat then root = Some ph else m (parent_filename p) = Some ph"
proof -
  obtain res r where l: "create_loop url flat hs m0 root0 r0 = (res, r)"
    by (cases "create_loop url flat hs m0 root0 r0")
  with assms obtain m root where res: "res = Inr (m, root)"
    by (cases res) (auto simp: create_loop_snoc)
  from assms l res have st: "create_step url flat p m root r = (Inr (m', root'), r')"
    by (simp add: create_loop_snoc)
  then obtain ph where
    "created p ph m root r = (Inr (m', root'), r')"
    "if type p = ROOT then get_notion_page r url = Some ph
     else if flat then root = Some ph else m (parent_filename p) = Some ph"
    unfolding create_step_char by (auto split: if_splits option.splits)
  with l res that show thesis by blast
qed

lemma created_fields:
  assumes "created p ph m root r = (Inr (m', root'), r')"
  shows "m' = m(filename p \<mapsto> next_handle r)"
    and "root' = (if type p = ROOT then Some (next_handle r) else root)"
    and "next_handle r' = Suc (next_handle r)"
    and "calls r' = calls r @ [Create ph (title p) (next_handle r)]"
    and "blocks r' = blocks r"
  using assms by (auto simp: created_def)

lemma create_loop_calls:
  "create_loop url flat hs m0 root0 r0 = (Inr (m, root), r) \<Longrightarrow>
     next_handle r = next_handle r0 + length hs \<and> blocks r = blocks r0 \<and>
     length (calls r) = length (calls r0) + length hs \<and>
     take (length (calls r0)) (calls r) = calls r0 \<and>
     (\<forall>j<length hs. \<exists>pp. calls r ! (length (calls r0) + j) =
         Create pp (title (hs ! j)) (next_handle r0 + j))"
proof (induction hs arbitrary: m root r rule: rev_induct)
  case Nil
  then show ?case by simp
next
  case (snoc p hs)
  from snoc.prems obtain m1 root1 r1 ph where
    l: "create_loop url flat hs m0 root0 r0 = (Inr (m1, root1), r1)" and
    c: "created p ph m1 root1 r1 = (Inr (m, root), r)"
    by (rule create_loop_snoc_Inr)
  note ih = snoc.IH [OF l]
  note f = created_fields [OF c]
  have len: "length (calls r1) = length (calls r0) + length hs" using ih by blast
  have "\<exists>pp. calls r ! (length (calls r0) + j) =
         Create pp (title ((hs @ [p]) ! j)) (next_handle r0 + j)" if "j < length (hs @ [p])" for j
  proof (cases "j < length hs")
    case True
    with ih obtain pp where "calls r1 ! (length (calls r0) + j) =
         Create pp (title (hs ! j)) (next_handle r0 + j)" by blast
    with True len show ?thesis by (auto simp: f(4) nth_append)
  next
    case False
    with that have "j = length hs" by simp
    with ih len show ?thesis by (auto simp: f(4) nth_append)
  qed
  moreover have "take (length (calls r0)) (calls r) = calls r0"
    using ih len by (simp add: f(4))
  ultimately show ?case using ih len by (simp add: f)
qed

lemma create_loop_root:
  "create_loop url flat hs Map.empty None r0 = (Inr (m, root), r) \<Longrightarrow> root = Some hr \<Longrightarrow>
     \<exists>j<length hs. type (hs ! j) = ROOT \<and> hr = next_handle r0 + j \<and>
        (\<forall>k. j < k \<and> k < length hs \<longrightarrow> type (hs ! k) \<noteq> ROOT)"
proof (induction hs arbitrary: m root r hr rule: rev_induct)
  case Nil
  then show ?case by simp
next
  case (snoc p hs)
  from snoc.prems(1) obtain m1 root1 r1 ph where
    l: "create_loop url flat hs Map.empty None r0 = (Inr (m1, root1), r1)" and
    c: "created p ph m1 root1 r1 = (Inr (m, root), r)"
    by (rule create_loop_snoc_Inr)
  note f = created_fields [OF c]
  have nh: "next_handle r1 = next_handle r0 + length hs"
    using create_loop_calls [OF l] by blast
  show ?case
  proof (cases "type p = ROOT")
    case True
    with f(2) snoc.prems(2) nh have "hr = next_handle r0 + length hs" by simp
    with True show ?thesis by (intro exI [of _ "length hs"]) (auto simp: nth_append)
  next
    case False
    with f(2) snoc.prems(2) have "root1 = Some hr" by simp
    from snoc.IH [OF l this] obtain j where
      j: "j < length hs" "type (hs ! j) = ROOT" "hr = next_handle r0 + j"
         "\<forall>k. j < k \<and> k < length hs \<longrightarrow> type (hs ! k) \<noteq> ROOT"
      by blast
    with False show ?thesis
      by (intro exI [of _ j]) (auto simp: nth_append less_Suc_eq)
  qed
qed

lemma create_loop_mapping:
  "create_loop url flat hs Map.empty None r0 = (Inr (m, root), r) \<Longrightarrow> m f = Some x \<Longrightarrow>
     \<exists>j<length hs. filename (hs ! j) = f \<and> x = next_handle r0 + j \<and>
        (\<forall>k. j < k \<and> k < length hs \<longrightarrow> filename (hs ! k) \<noteq> f)"
proof (induction hs arbitrary: m root r x rule: rev_induct)
  case Nil
  then show ?case by auto
next
  case (snoc p hs)
  from snoc.prems(1) obtain m1 root1 r1 ph where
    l: "create_loop url flat hs Map.empty None r0 = (Inr (m1, root1), r1)" and
    c: "created p ph m1 root1 r1 = (Inr (m, root), r)"
    by (rule create_loop_snoc_Inr)
  note f = created_fields [OF c]
  have nh: "next_handle r1 = next_handle r0 + length hs"
    using create_loop_calls [OF l] by blast
  show ?case
  proof (cases "filename p = f")
    case True
    with f(1) snoc.prems(2) nh have "x = next_handle r0 + length hs" by simp
    with True show ?thesis by (intro exI [of _ "length hs"]) (auto simp: nth_append)
  next
    case False
    with f(1) snoc.prems(2) have "m1 f = Some x" by simp
    from snoc.IH [OF l this] obtain j where
      j: "j < length hs" "filename (hs ! j) = f" "x = next_handle r0 + j"
         "\<forall>k. j < k \<and> k < length hs \<longrightarrow> filename (hs ! k) \<noteq> f"
      by blast
    with False show ?thesis
      by (intro exI [of _ j]) (auto simp: nth_append less_Suc_eq)
  qed
qed

lemma root_handle_snoc:
  "root_handle n (hs @ [p]) =
     (if type p = ROOT then Some (n + length hs) else root_handle n hs)"
  by (induction hs arbitrary: n) (auto split: option.splits)

lemma create_loop_root_handle:
  "create_loop url flat hs Map.empty None r0 = (Inr (m, root), r) \<Longrightarrow>
   root = root_handle (next_handle r0) hs"
proof (induction hs arbitrary: m root r rule: rev_induct)
  case Nil
  then show ?case by simp
next
  case (snoc p hs)
  from snoc.prems obtain m1 root1 r1 ph where
    l: "create_loop url flat hs Map.empty None r0 = (Inr (m1, root1), r1)" and
    c: "created p ph m1 root1 r1 = (Inr (m, root), r)"
    by (rule create_loop_snoc_Inr)
  have nh: "next_handle r1 = next_handle r0 + length hs"
    using create_loop_calls [OF l] by blast
  from snoc.IH [OF l] created_fields(2) [OF c] nh show ?case
    by (simp add: root_handle_snoc)
qed

text \<open>\<open>create_notion_hierarchy\<close> is its loop, started with an empty mapping and no root page.\<close>

lemma create_notion_hierarchy_Inr:
  "create_notion_hierarchy url hs flat r0 = (Inr m, r) \<longleftrightarrow>
     (\<exists>root. create_loop url flat hs Map.empty None r0 = (Inr (m, root), r))"
  by (auto simp: create_notion_hierarchy_def split: prod.splits sum.splits)

lemma created_recorded:
  "(case created p ph m root r of
      (Inl e, r') \<Rightarrow> (Inl e, r')
    | (Inr (m', root'), r') \<Rightarrow> (Inr m', r')) = recorded p ph m r"
  by (simp add: created_def recorded_def)

text \<open>
  Claim C2.  \<open>create_notion_hierarchy\<close> on no page returns the empty mapping and issues no
  call.  Whenever, on the first \<open>i\<close> pages of a hierarchy, it returns the mapping \<open>m\<close> and
  leaves the remote state \<open>r\<close>, then on the first \<open>i + 1\<close> pages it does the same and then
  creates page \<open>i\<close>, with its title, under: the page the root parent URL resolves to, when
  page \<open>i\<close> is the Root; the handle returned when the last Root before \<open>i\<close> was created,
  when page \<open>i\<close> is not the Root and \<open>flat\<close> is set; the handle that \<open>m\<close> has for its
  \<open>parent_filename\<close>, when it is not the Root and \<open>flat\<close> is not set (\<open>AttributeError\<close> or
  \<open>KeyError\<close> when there is no such parent); and it returns \<open>m\<close> with the returned handle
  recorded under the filename of page \<open>i\<close>.  Every entry of \<open>m\<close> is the handle returned
  when the last of the first \<open>i\<close> pages with that filename was created.  With
  \<open>i + 1\<close> the number of pages, this is the run on the whole hierarchy.
\<close>

theorem create_hierarchy_parents:
  assumes "i < length h"
    and "create_notion_hierarchy url (take i h) flat r0 = (Inr m, r)"
  shows
   "create_notion_hierarchy url [] flat r0 = (Inr Map.empty, r0) \<and>
    create_notion_hierarchy url (take (Suc i) h) flat r0 =
      (if type (h ! i) = ROOT then
         (case get_notion_page r0 url of
            None \<Rightarrow> (Inl AttributeError, r)
          | Some ph \<Rightarrow> recorded (h ! i) ph m r)
       else if flat then
         (case root_handle (next_handle r0) (take i h) of
            None \<Rightarrow> (Inl AttributeError, r)
          | Some ph \<Rightarrow> recorded (h ! i) ph m r)
       else
         (case m (parent_filename (h ! i)) of
            None \<Rightarrow> (Inl KeyError, r)
          | Some ph \<Rightarrow> recorded (h ! i) ph m r)) \<and>
    (\<forall>hr. root_handle (next_handle r0) (take i h) = Some hr \<longrightarrow>
       (\<exists>j<i. type (h ! j) = ROOT \<and> hr = next_handle r0 + j \<and>
          (\<forall>k. j < k \<and> k < i \<longrightarrow> type (h ! k) \<noteq> ROOT) \<and>
          (\<exists>pp. calls r ! (length (calls r0) + j) = Create pp (title (h ! j)) hr))) \<and>
    (\<forall>f x. m f = Some x \<longrightarrow>
       (\<exists>j<i. filename (h ! j) = f \<and> x = next_handle r0 + j \<and>
          (\<forall>k. j < k \<and> k < i \<longrightarrow> filename (h ! k) \<noteq> f) \<and>
          (\<exists>pp. calls r ! (length (calls r0) + j) = Create pp (title (h ! j)) x))) \<and>
    (Suc i = length h \<longrightarrow> take (Suc i) h = h)"
proof -
  from assms(2) obtain root where
    loop: "create_loop url flat (take i h) Map.empty None r0 = (Inr (m, root), r)"
    unfolding create_notion_hierarchy_Inr by blast
  have root: "root = root_handle (next_handle r0) (take i h)"
    using loop by (rule create_loop_root_handle)
  have tk: "take (Suc i) h = take i h @ [h ! i]"
    using assms(1) by (simp add: take_Suc_conv_app_nth)
  have "blocks r = blocks r0" using create_loop_calls [OF loop] by blast
  then have g: "get_notion_page r url = get_notion_page r0 url"
    by (simp add: get_notion_page_def)
  have li: "length (take i h) = i" using assms(1) by simp
  have nth: "take i h ! j = h ! j" if "j < i" for j using that by simp
  note cl = create_loop_calls [OF loop, unfolded li]
  have c0: "create_notion_hierarchy url [] flat r0 = (Inr Map.empty, r0)"
    by (simp add: create_notion_hierarchy_def)
  have c1: "create_notion_hierarchy url (take (Suc i) h) flat r0 =
      (if type (h ! i) = ROOT then
         (case get_notion_page r0 url of
            None \<Rightarrow> (Inl AttributeError, r)
          | Some ph \<Rightarrow> recorded (h ! i) ph m r)
       else if flat then
         (case root_handle (next_handle r0) (take i h) of
            None \<Rightarrow> (Inl AttributeError, r)
          | Some ph \<Rightarrow> recorded (h ! i) ph m r)
       else
         (case m (parent_filename (h ! i)) of
            None \<Rightarrow> (Inl KeyError, r)
          | Some ph \<Rightarrow> recorded (h ! i) ph m r))"
    unfolding create_notion_hierarchy_def tk create_loop_snoc loop root [symmetric]
      g [symmetric]
    by (simp add: create_step_char created_recorded split: option.splits)
  have c2: "\<exists>j<i. type (h ! j) = ROOT \<and> hr = next_handle r0 + j \<and>
          (\<forall>k. j < k \<and> k < i \<longrightarrow> type (h ! k) \<noteq> ROOT) \<and>
          (\<exists>pp. calls r ! (length (calls r0) + j) = Create pp (title (h ! j)) hr)"
    if "root_handle (next_handle r0) (take i h) = Some hr" for hr
  proof -
    from that root have "root = Some hr" by simp
    from create_loop_root [OF loop this, unfolded li] obtain j where
      j: "j < i" "type (take i h ! j) = ROOT" "hr = next_handle r0 + j"
         "\<forall>k. j < k \<and> k < i \<longrightarrow> type (take i h ! k) \<noteq> ROOT"
      by blast
    from cl j(1) obtain pp where
      "calls r ! (length (calls r0) + j) = Create pp (title (take i h ! j)) (next_handle r0 + j)"
      by blast
    with j show ?thesis by (intro exI [of _ j]) (auto simp: nth)
  qed
  have c3: "\<exists>j<i. filename (h ! j) = f \<and> x = next_handle r0 + j \<and>
          (\<forall>k. j < k \<and> k < i \<longrightarrow> filename (h ! k) \<noteq> f) \<and>
          (\<exists>pp. calls r ! (length (calls r0) + j) = Create pp (title (h ! j)) x)"
    if "m f = Some x" for f x
  proof -
    from create_loop_mapping [OF loop that, unfolded li] obtain j where
      j: "j < i" "filename (take i h ! j) = f" "x = next_handle r0 + j"
         "\<forall>k. j < k \<and> k < i \<longrightarrow> filename (take i h ! k) \<noteq> f"
      by blast
    from cl j(1) obtain pp where
      "calls r ! (length (calls r0) + j) = Create pp (title (take i h ! j)) (next_handle r0 + j)"
      by blast
    with j show ?thesis by (intro exI [of _ j]) (auto simp: nth)
  qed
  have c4: "Suc i = length h \<longrightarrow> take (Suc i) h = h" by simp
  from c0 c1 c2 c3 c4 show ?thesis by blast
qed

text \<open>
  In flat mode the loop returns whenever the root parent URL resolves and the hierarchy
  starts with its Root, as every hierarchy of \<open>build_local_hierarchy\<close> does.
\<close>

lemma create_loop_flat_returns:
  "get_notion_page r url \<noteq> None \<Longrightarrow> root \<noteq> None \<or> (hs \<noteq> [] \<and> type (hd hs) = ROOT) \<or> hs = [] \<Longrightarrow>
   \<exists>m' root' r'. create_loop url True hs m root r = (Inr (m', root'), r')"
proof (induction hs arbitrary: m root r)
  case Nil
  then show ?case by simp
next
  case (Cons p hs)
  define r1 where "r1 = r\<lparr>next_handle := Suc (next_handle r),
        calls := calls r @ [Create (the (if type p = ROOT then get_notion_page r url else root))
          (title p) (next_handle r)]\<rparr>"
  define root1 where "root1 = (if type p = ROOT then Some (next_handle r) else root)"
  define m1 where "m1 = m(filename p \<mapsto> next_handle r)"
  from Cons.prems have st: "create_step url True p m root r = (Inr (m1, root1), r1)"
    unfolding create_step_char r1_def root1_def m1_def
    by (cases "type p = ROOT") (auto simp: created_def)
  have b: "get_notion_page r1 url \<noteq> None"
    using Cons.prems(1) by (simp add: r1_def get_notion_page_def)
  have ro: "root1 \<noteq> None \<or> (hs \<noteq> [] \<and> type (hd hs) = ROOT) \<or> hs = []"
    using Cons.prems(2) by (auto simp: root1_def)
  from Cons.IH [OF b ro, of m1] obtain m' root' r' where
    "create_loop url True hs m1 root1 r1 = (Inr (m', root'), r')" by blast
  then show ?case by (simp add: st)
qed

lemma titles3:
  "title (mk_Page ROOT [] ''root/index.md'') = ''root''"
  "title (mk_Page NODE ''root/index.md'' ''root/a/index.md'') = ''a''"
  "title (mk_Page LEAVE ''root/a/index.md'' ''root/a/b.md'') = ''b.md''"
  by code_simp+

lemma prefix2:
  "create_notion_hierarchy ''https://www.notion.so/parent'' (take 2 hierarchy3) flat
     example_workspace =
   (Inr [''root/index.md'' \<mapsto> 10, ''root/a/index.md'' \<mapsto> 11],
    example_workspace\<lparr>next_handle := 12,
      calls := [Create 1 ''root'' 10, Create 10 ''a'' 11]\<rparr>)"
  by (simp add: create_notion_hierarchy_def hierarchy3_def create_step_char created_def titles3
      example_workspace_def get_notion_page_def)
     (simp add: mk_Page_def)

theorem create_hierarchy_parents_witness:
  "(2::nat) < length hierarchy3 \<and>
   create_notion_hierarchy ''https://www.notion.so/parent'' (take 2 hierarchy3) True
     example_workspace =
   (Inr [''root/index.md'' \<mapsto> 10, ''root/a/index.md'' \<mapsto> 11],
    example_workspace\<lparr>next_handle := 12,
      calls := [Create 1 ''root'' 10, Create 10 ''a'' 11]\<rparr>) \<and>
   create_notion_hierarchy ''https://www.notion.so/parent'' hierarchy3 True example_workspace =
   (Inr [''root/index.md'' \<mapsto> 10, ''root/a/index.md'' \<mapsto> 11, ''root/a/b.md'' \<mapsto> 12],
    example_workspace\<lparr>next_handle := 13,
      calls := [Create 1 ''root'' 10, Create 10 ''a'' 11, Create 10 ''b.md'' 12]\<rparr>) \<and>
   create_notion_hierarchy ''https://www.notion.so/parent'' hierarchy3 False example_workspace =
   (Inr [''root/index.md'' \<mapsto> 10, ''root/a/index.md'' \<mapsto> 11, ''root/a/b.md'' \<mapsto> 12],
    example_workspace\<lparr>next_handle := 13,
      calls := [Create 1 ''root'' 10, Create 10 ''a'' 11, Create 11 ''b.md'' 12]\<rparr>)"
proof -
  have l: "(2::nat) < length hierarchy3" by (simp add: hierarchy3_def)
  have p: "hierarchy3 ! 2 = mk_Page LEAVE ''root/a/index.md'' ''root/a/b.md''"
    by (simp add: hierarchy3_def)
  have s: "take (Suc 2) hierarchy3 = hierarchy3" by (simp add: hierarchy3_def)
  have rh: "root_handle (next_handle example_workspace) (take 2 hierarchy3) = Some 10"
    by (simp add: hierarchy3_def example_workspace_def mk_Page_def)
  note a = create_hierarchy_parents [OF l prefix2 [of True], THEN conjunct2, THEN conjunct1,
      unfolded p s rh]
  note b = create_hierarchy_parents [OF l prefix2 [of False], THEN conjunct2, THEN conjunct1,
      unfolded p s]
  have ca: "create_notion_hierarchy ''https://www.notion.so/parent'' hierarchy3 True
      example_workspace =
     (Inr [''root/index.md'' \<mapsto> 10, ''root/a/index.md'' \<mapsto> 11, ''root/a/b.md'' \<mapsto> 12],
      example_workspace\<lparr>next_handle := 13,
        calls := [Create 1 ''root'' 10, Create 10 ''a'' 11, Create 10 ''b.md'' 12]\<rparr>)"
    unfolding a by (simp add: recorded_def titles3) (simp add: mk_Page_def)
  have cb: "create_notion_hierarchy ''https://www.notion.so/parent'' hierarchy3 False
      example_workspace =
     (Inr [''root/index.md'' \<mapsto> 10, ''root/a/index.md'' \<mapsto> 11, ''root/a/b.md'' \<mapsto> 12],
      example_workspace\<lparr>next_handle := 13,
        calls := [Create 1 ''root'' 10, Create 10 ''a'' 11, Create 11 ''b.md'' 12]\<rparr>)"
    unfolding b by (simp add: recorded_def titles3) (simp add: mk_Page_def)
  from l prefix2 [of True] ca cb show ?thesis by (intro conjI)
qed

lemma create_notion_hierarchy_flat_returns:
  assumes "get_notion_page r0 url \<noteq> None" and "h = [] \<or> type (hd h) = ROOT"
  shows "\<exists>m r. create_notion_hierarchy url h True r0 = (Inr m, r)"
proof -
  from assms(2) have "None \<noteq> (None :: handle option) \<or> (h \<noteq> [] \<and> type (hd h) = ROOT) \<or> h = []"
    by auto
  from create_loop_flat_returns [OF assms(1) this, of Map.empty] obtain m root r where
    "create_loop url True h Map.empty None r0 = (Inr (m, root), r)" by blast
  then show ?thesis by (simp add: create_notion_hierarchy_def)
qed

section \<open>References between the descriptors of a hierarchy\<close>

lemma wf_name_no_sep: "wf_name n \<Longrightarrow> c \<in> set n \<Longrightarrow> not_sep c"
  by (auto simp: wf_name_def not_sep_def is_sep_def filter_empty_conv)

lemma path_head_append:
  assumes "wf_name n"
  shows "path_head (xs @ n) = path_head xs"
proof -
  have "dropWhile not_sep (rev n @ rev xs) = dropWhile not_sep (rev xs)"
    by (rule dropWhile_append2) (use assms wf_name_no_sep in auto)
  then show ?thesis by (simp add: path_head_def)
qed

lemma path_head_slash: "path_head (xs @ ''/'') = xs @ ''/''"
  by (simp add: path_head_def not_sep_def)

lemma path_head_Nil: "path_head [] = []"
  by (simp add: path_head_def)

lemma rstrip_sep_keep: "xs \<noteq> [] \<Longrightarrow> last xs \<noteq> CHR ''/'' \<Longrightarrow> rstrip_sep xs = xs"
  by (cases xs rule: rev_cases) (auto simp: rstrip_sep_def is_sep_def)

lemma rstrip_sep_slash: "rstrip_sep (xs @ ''/'') = rstrip_sep xs"
  by (simp add: rstrip_sep_def is_sep_def)

lemma endswith_slash: "endswith a ''/'' \<longleftrightarrow> a \<noteq> [] \<and> last a = CHR ''/''"
  by (cases a rule: rev_cases) (auto simp: endswith_def)

lemma endswith_slashes:
  "endswith (xs @ ''/'') ''//'' \<longleftrightarrow> xs \<noteq> [] \<and> last xs = CHR ''/''"
proof (cases xs rule: rev_cases)
  case Nil
  then show ?thesis by (simp add: endswith_def)
next
  case (snoc ys y)
  then show ?thesis by (auto simp: endswith_def)
qed

lemma wf_name_start: "wf_name n \<Longrightarrow> \<not> startswith n ''/''"
  by (cases n) (auto simp: wf_name_def startswith_def is_sep_def)

lemma index_start: "\<not> startswith ''index.md'' ''/''"
  by (simp add: startswith_def)

lemma dirname_join:
  assumes n: "wf_name n" and t: "tidy d"
  shows "index_of (dirname (path_join d n)) = index_of d"
proof (cases "d = []")
  case True
  with n show ?thesis
    using path_head_append [OF n, of "[]"]
    by (simp add: path_join_def wf_name_start dirname_def path_head_Nil)
next
  case False
  show ?thesis
  proof (cases "last d = CHR ''/''")
    case True
    with False obtain d0 where d: "d = d0 @ ''/''"
      by (cases d rule: rev_cases) auto
    have pj: "path_join d n = d @ n"
      using n True False by (simp add: path_join_def wf_name_start endswith_slash)
    have ph: "path_head (d @ n) = d"
      using path_head_append [OF n, of d] by (simp add: d path_head_slash)
    show ?thesis
    proof (cases "filter not_sep d = []")
      case True
      then show ?thesis by (simp add: pj dirname_def ph Let_def)
    next
      case nonsep: False
      with t have "\<not> endswith d ''//''" by (simp add: tidy_def)
      with d have d0: "d0 = [] \<or> last d0 \<noteq> CHR ''/''" by (simp add: endswith_slashes)
      from nonsep d have "d0 \<noteq> []" by (auto simp: not_sep_def)
      with d0 have l: "last d0 \<noteq> CHR ''/''" by simp
      have "dirname (path_join d n) = d0"
        unfolding pj dirname_def ph Let_def using nonsep \<open>d0 \<noteq> []\<close> l False
        by (simp add: d rstrip_sep_slash rstrip_sep_keep)
      then show ?thesis
        using \<open>d0 \<noteq> []\<close> l
        by (simp add: index_of_def path_join_def index_start endswith_slash d)
    qed
  next
    case nl: False
    have pj: "path_join d n = (d @ ''/'') @ n"
      using n nl False by (simp add: path_join_def wf_name_start endswith_slash)
    have ph: "path_head ((d @ ''/'') @ n) = d @ ''/''"
      using path_head_append [OF n, of "d @ ''/''"] by (simp only: path_head_slash)
    have "last d \<in> set d" using False by simp
    with nl have ns: "filter not_sep (d @ ''/'') \<noteq> []"
      by (auto simp: filter_empty_conv not_sep_def)
    have "dirname (path_join d n) = d"
      unfolding pj dirname_def ph Let_def using ns False nl
      by (simp add: rstrip_sep_slash rstrip_sep_keep)
    then show ?thesis by simp
  qed
qed

lemma tidy_join:
  assumes "wf_name n"
  shows "tidy (path_join d n)"
proof -
  from assms have ne: "n \<noteq> []" by (simp add: wf_name_def)
  then have "last n \<in> set n" by simp
  with assms have "not_sep (last n)" by (rule wf_name_no_sep)
  then have y: "last n \<noteq> CHR ''/''" by (simp add: not_sep_def)
  define y where "y = last n"
  define ys where "ys = butlast n"
  have n: "n = ys @ [y]" using ne by (simp add: y_def ys_def)
  have y: "y \<noteq> CHR ''/''" using y by (simp add: y_def)
  have "\<exists>xs. path_join d n = xs @ [y]"
    by (auto simp: path_join_def n)
  then obtain xs where "path_join d n = xs @ [y]" by blast
  with y show ?thesis by (simp add: tidy_def endswith_def)
qed

lemma refs_ok_append:
  "refs_ok S (xs @ ys) \<longleftrightarrow> refs_ok S xs \<and> refs_ok (S \<union> filename ` set xs) ys"
proof (induction xs arbitrary: S)
  case Nil
  then show ?case by simp
next
  case (Cons x xs)
  have "insert (filename x) S \<union> filename ` set xs = S \<union> filename ` set (x # xs)" by auto
  then show ?case by (auto simp: Cons.IH)
qed

lemma refs_ok_mono: "refs_ok S xs \<Longrightarrow> S \<subseteq> T \<Longrightarrow> refs_ok T xs"
proof (induction xs arbitrary: S T)
  case Nil
  then show ?case by simp
next
  case (Cons x xs)
  from Cons.prems have "refs_ok (insert (filename x) S) xs" by simp
  moreover from Cons.prems have "insert (filename x) S \<subseteq> insert (filename x) T" by auto
  ultimately have "refs_ok (insert (filename x) T) xs" by (rule Cons.IH)
  with Cons.prems show ?case by auto
qed

lemma mk_Page_sel:
  "type (mk_Page k pf f) = k" "parent_filename (mk_Page k pf f) = pf"
  "filename (mk_Page k pf f) = f"
  by (simp_all add: mk_Page_def)

lemma refs_ok_leaves:
  "node \<in> S \<Longrightarrow> refs_ok S (map (\<lambda>f. mk_Page LEAVE node (g f)) fs)"
  by (induction fs arbitrary: S) (auto simp: mk_Page_sel)

lemma refs_ok_step_node:
  assumes "index_of (dirname d) \<in> S"
  shows "refs_ok S (hierarchy_step (Suc k, d, ds, fs))"
proof -
  have "refs_ok (insert (path_join d ''index.md'') S)
     (map (\<lambda>f. mk_Page LEAVE (path_join d ''index.md'') (path_join d f))
        (filter is_leave_name fs))"
    by (rule refs_ok_leaves) simp
  with assms show ?thesis
    by (simp add: hierarchy_step_def Let_def mk_Page_sel index_of_def)
qed

lemma refs_ok_step_root: "refs_ok S (hierarchy_step (0, d, ds, fs))"
proof -
  have "refs_ok (insert (path_join d ''index.md'') S)
     (map (\<lambda>f. mk_Page LEAVE (path_join d ''index.md'') (path_join d f))
        (filter is_leave_name fs))"
    by (rule refs_ok_leaves) simp
  then show ?thesis
    by (simp add: hierarchy_step_def Let_def mk_Page_sel)
qed

lemma step_has_index: "index_of d \<in> filename ` set (hierarchy_step (k, d, ds, fs))"
  by (simp add: hierarchy_step_def Let_def index_of_def mk_Page_sel)

lemma hierarchy_step_Suc: "hierarchy_step (Suc k, e) = hierarchy_step (Suc 0, e)"
  by (cases e) (simp add: hierarchy_step_def)

lemma pages_enumerate_Suc:
  "concat (map hierarchy_step (enumerate (Suc k) w)) = node_pages w"
proof (induction w arbitrary: k)
  case Nil
  then show ?case by (simp add: node_pages_def)
next
  case (Cons e w)
  then show ?case using hierarchy_step_Suc [of k e] by (simp add: node_pages_def)
qed

lemma node_pages_Cons: "node_pages (e # w) = hierarchy_step (Suc 0, e) @ node_pages w"
  by (simp add: node_pages_def)

lemma node_pages_append: "node_pages (u @ w) = node_pages u @ node_pages w"
  by (simp add: node_pages_def)

lemma wf_subs_member: "wf_subs es \<Longrightarrow> (n, t) \<in> set es \<Longrightarrow> wf_name n \<and> wf_tree t"
  by (induction es) auto

lemma refs_ok_subwalks:
  assumes ih: "\<And>n t S. (n, t) \<in> set es \<Longrightarrow> index_of (dirname (path_join d n)) \<in> S \<Longrightarrow>
                 refs_ok S (node_pages (os_walk (path_join d n) t))"
    and wf: "\<And>n t. (n, t) \<in> set es \<Longrightarrow> wf_name n"
    and td: "tidy d" and S: "index_of d \<in> S"
  shows "refs_ok S (node_pages (concat (map (\<lambda>(n, t). os_walk (path_join d n) t) es)))"
  using ih wf S
proof (induction es arbitrary: S)
  case Nil
  then show ?case by (simp add: node_pages_def)
next
  case (Cons e es)
  obtain n t where e: "e = (n, t)" by (cases e)
  have n: "wf_name n" using Cons.prems(2) [of n t] by (simp add: e)
  have "index_of (dirname (path_join d n)) \<in> S"
    using dirname_join [OF n td] Cons.prems(3) by simp
  then have a: "refs_ok S (node_pages (os_walk (path_join d n) t))"
    using Cons.prems(1) [of n t S] by (simp add: e)
  have "refs_ok (S \<union> filename ` set (node_pages (os_walk (path_join d n) t)))
     (node_pages (concat (map (\<lambda>(n, t). os_walk (path_join d n) t) es)))"
  proof (rule Cons.IH)
    show "index_of d \<in> S \<union> filename ` set (node_pages (os_walk (path_join d n) t))"
      using Cons.prems(3) by simp
  next
    fix n' t' S'
    assume "(n', t') \<in> set es" "index_of (dirname (path_join d n')) \<in> S'"
    then show "refs_ok S' (node_pages (os_walk (path_join d n') t'))"
      using Cons.prems(1) [of n' t' S'] by simp
  next
    fix n' t' assume "(n', t') \<in> set es"
    then show "wf_name n'" using Cons.prems(2) [of n' t'] by simp
  qed
  with a show ?case by (simp add: e node_pages_append refs_ok_append)
qed

lemma refs_ok_walk:
  "tidy d \<Longrightarrow> wf_tree t \<Longrightarrow> index_of (dirname d) \<in> S \<Longrightarrow> refs_ok S (node_pages (os_walk d t))"
proof (induction d t arbitrary: S rule: os_walk.induct)
  case (1 d subs fs)
  let ?e = "(d, map fst (remove_git subs), fs)"
  let ?S = "S \<union> filename ` set (hierarchy_step (Suc 0, ?e))"
  have wf: "wf_name n \<and> wf_tree t" if "(n, t) \<in> set (remove_git subs)" for n t
    using that "1.prems"(2) remove_git_subset [of subs] wf_subs_member [of subs n t] by auto
  have a: "refs_ok S (hierarchy_step (Suc 0, ?e))"
    using "1.prems"(3) by (rule refs_ok_step_node)
  have "refs_ok ?S
     (node_pages (concat (map (\<lambda>(n, t). os_walk (path_join d n) t) (remove_git subs))))"
  proof (rule refs_ok_subwalks)
    show "tidy d" by (rule "1.prems"(1))
    show "index_of d \<in> ?S" using step_has_index [of d "Suc 0"] by blast
  next
    fix n t assume "(n, t) \<in> set (remove_git subs)"
    then show "wf_name n" using wf by blast
  next
    fix n t S'
    assume m: "(n, t) \<in> set (remove_git subs)" and s: "index_of (dirname (path_join d n)) \<in> S'"
    from wf [OF m] have "tidy (path_join d n)" "wf_tree t" by (auto intro: tidy_join)
    then show "refs_ok S' (node_pages (os_walk (path_join d n) t))"
      using "1.IH" [of "(n, t)" n t S'] m s by simp
  qed
  with a show ?case by (simp add: node_pages_Cons refs_ok_append)
qed

lemma refs_ok_hierarchy:
  assumes "tidy path" and "wf_tree t"
  shows "refs_ok {} (build_local_hierarchy path t)"
proof (cases t)
  case (Dir subs fs)
  let ?e = "(path, map fst (remove_git subs), fs)"
  let ?S = "{} \<union> filename ` set (hierarchy_step (0, ?e))"
  have wf: "wf_name n \<and> wf_tree t'" if "(n, t') \<in> set (remove_git subs)" for n t'
    using that assms(2) remove_git_subset [of subs] wf_subs_member [of subs n t']
    by (auto simp: Dir)
  have "refs_ok ?S
     (node_pages (concat (map (\<lambda>(n, t). os_walk (path_join path n) t) (remove_git subs))))"
  proof (rule refs_ok_subwalks)
    show "tidy path" by (rule assms(1))
    show "index_of path \<in> ?S" using step_has_index [of path 0] by blast
  next
    fix n t' assume "(n, t') \<in> set (remove_git subs)"
    then show "wf_name n" using wf by blast
  next
    fix n t' S'
    assume m: "(n, t') \<in> set (remove_git subs)"
      and s: "index_of (dirname (path_join path n)) \<in> S'"
    from wf [OF m] have "tidy (path_join path n)" "wf_tree t'" by (auto intro: tidy_join)
    then show "refs_ok S' (node_pages (os_walk (path_join path n) t'))"
      using s by (rule refs_ok_walk)
  qed
  then show ?thesis
    by (simp add: build_local_hierarchy_def Dir pages_enumerate_Suc refs_ok_append
        refs_ok_step_root)
qed

lemma refs_ok_nth:
  "refs_ok S h \<Longrightarrow> i < length h \<Longrightarrow> parent_filename (h ! i) \<noteq> [] \<Longrightarrow>
   parent_filename (h ! i) \<in> S \<or> (\<exists>j<i. filename (h ! j) = parent_filename (h ! i))"
proof (induction h arbitrary: S i)
  case Nil
  then show ?case by simp
next
  case (Cons p h)
  show ?case
  proof (cases i)
    case 0
    with Cons.prems show ?thesis by simp
  next
    case (Suc k)
    with Cons.prems have "refs_ok (insert (filename p) S) h" "k < length h"
      "parent_filename (h ! k) \<noteq> []" by simp_all
    from Cons.IH [OF this] consider "parent_filename (h ! k) = filename p"
      | "parent_filename (h ! k) \<in> S"
      | j where "j < k" "filename (h ! j) = parent_filename (h ! k)" by blast
    then show ?thesis
    proof cases
      case 1
      then show ?thesis by (auto simp: Suc intro: exI [of _ 0])
    next
      case 2
      then show ?thesis by (simp add: Suc)
    next
      case 3
      then show ?thesis by (auto simp: Suc intro: exI [of _ "Suc j"])
    qed
  qed
qed

text \<open>
  For a root path without redundant trailing slashes, every parent filename that is not
  empty is the filename of an earlier descriptor, whatever the directory tree.
\<close>

lemma hierarchy_parents_earlier:
  assumes "tidy path" and "wf_tree t" and "i < length (build_local_hierarchy path t)"
    and "parent_filename (build_local_hierarchy path t ! i) \<noteq> []"
  shows "\<exists>j<i. filename (build_local_hierarchy path t ! j) =
     parent_filename (build_local_hierarchy path t ! i)"
  using refs_ok_nth [OF refs_ok_hierarchy [OF assms(1,2)] assms(3,4)] by simp

text \<open>
  The descriptors of one directory: its Root or Node, followed by its Leaves, each of
  which names that Root or Node as its parent.
\<close>

lemma leaves_under_node:
  "type (hd (hierarchy_step e)) \<noteq> LEAVE \<and>
   list_all (\<lambda>p. type p = LEAVE \<and> parent_filename p = filename (hd (hierarchy_step e)))
     (tl (hierarchy_step e))"
  by (cases e) (simp add: hierarchy_step_def Let_def mk_Page_sel list_all_iff)

section \<open>The hierarchy of a root path with trailing slashes\<close>

lemma hierarchy_trailing_slashes:
  "build_local_hierarchy ''docs//'' (Dir [(''a'', Dir [] [])] []) =
     [mk_Page ROOT [] ''docs//index.md'',
      mk_Page NODE ''docs/index.md'' ''docs//a/index.md'']"
  by code_simp

lemma titles_trailing_slashes:
  "title (mk_Page ROOT [] ''docs//index.md'') = ''docs''"
  "title (mk_Page NODE ''docs/index.md'' ''docs//a/index.md'') = ''a''"
  by code_simp+

text \<open>
  Claim C1 at the root path \<open>docs//\<close> with one sub-directory \<open>a\<close>.  The Root is
  \<open>docs//index.md\<close>; the walk reaches \<open>a\<close> as \<open>docs//a\<close>, whose \<open>dirname\<close> is \<open>docs\<close>, so
  the Node of \<open>a\<close> names the parent \<open>docs/index.md\<close>, which is the filename of no
  descriptor.  The pages are created (flat), and the move phase then raises \<open>KeyError\<close>.
\<close>

theorem hierarchy_trailing_slashes_parent:
  "build_local_hierarchy ''docs//'' (Dir [(''a'', Dir [] [])] []) =
     [mk_Page ROOT [] ''docs//index.md'',
      mk_Page NODE ''docs/index.md'' ''docs//a/index.md''] \<and>
   ''docs/index.md'' \<notin>
     set (map filename (build_local_hierarchy ''docs//'' (Dir [(''a'', Dir [] [])] []))) \<and>
   (case create_notion_hierarchy ''https://www.notion.so/parent''
           (build_local_hierarchy ''docs//'' (Dir [(''a'', Dir [] [])] [])) True
           example_workspace of
      (Inl e, r) \<Rightarrow> Inl e
    | (Inr m, r) \<Rightarrow>
        fst (move_pages_notion_hierarchy
               (build_local_hierarchy ''docs//'' (Dir [(''a'', Dir [] [])] [])) m r)) =
     Inl KeyError"
  unfolding hierarchy_trailing_slashes
  by (simp add: create_notion_hierarchy_def create_step_char created_def titles_trailing_slashes
      example_workspace_def get_notion_page_def move_pages_notion_hierarchy_def move_step_def)
     (simp add: mk_Page_def)

end
